theory Spec2Isabelle
  imports Complex_Main "HOL-Library.Word"
begin

section \<open>Textures and pipeline state as the batch generator reads them\<close>

text \<open>
  The value of a display-object's texture property. The generator reads it through
  \<^verbatim>\<open>.baseTexture\<close>, \<^verbatim>\<open>.uid\<close>, \<^verbatim>\<open>.length\<close> and indexing only:
  \<open>BaseTexture u\<close> is a base texture with uid \<open>u\<close>, \<open>Texture u\<close> a texture whose
  \<^verbatim>\<open>baseTexture\<close> has uid \<open>u\<close>, \<open>TextureArray ts\<close> an array of such values.
\<close>

datatype texval = BaseTexture nat | Texture nat | TextureArray "texval list"

text \<open>\<^verbatim>\<open>t.baseTexture ? t.baseTexture : t\<close>\<close>

fun baseOf :: "texval \<Rightarrow> texval" where
  "baseOf (Texture u) = BaseTexture u"
| "baseOf t = t"

text \<open>
  \<^verbatim>\<open>t.uid\<close>, used as an object key. An object that has no \<^verbatim>\<open>uid\<close> property reads
  \<^verbatim>\<open>undefined\<close>, which as a key is the one key \<open>None\<close>.
\<close>

fun uidOf :: "texval \<Rightarrow> nat option" where
  "uidOf (BaseTexture u) = Some u"
| "uidOf t = None"

text \<open>\<^verbatim>\<open>a.length\<close>: \<^verbatim>\<open>undefined\<close> unless \<open>a\<close> is an array.\<close>

fun lengthOf :: "texval \<Rightarrow> nat option" where
  "lengthOf (TextureArray ts) = Some (length ts)"
| "lengthOf t = None"

text \<open>
  The elements visited by \<^verbatim>\<open>for (let i = 0; i < a.length; i++) a[i]\<close>: none when
  \<^verbatim>\<open>a.length\<close> is \<^verbatim>\<open>undefined\<close>.
\<close>

fun elems :: "texval \<Rightarrow> texval list" where
  "elems (TextureArray ts) = ts"
| "elems t = []"

text \<open>
  \<^verbatim>\<open>PIXI.State\<close> is declared by pixi.js: the bit field \<open>data\<close> (blend, offsets,
  culling, depth test, winding) next to the blend mode and the polygon offset, which are
  stored outside the bit field.
\<close>

record pstate =
  data :: int
  blendMode :: int
  polygonOffset :: int

section \<open>BatchGenerator\<close>

datatype putTextureRoutine =
  PutOnlyTexture | PutTextureArray | PutTextureWithoutReduction | PutTextureArrayWithoutReduction

text \<open>
  The fields of \<^verbatim>\<open>BatchGenerator\<close>. \<open>putTexture\<close> is the method the constructor
  stores in \<^verbatim>\<open>this._putTexture\<close>; \<open>onPut\<close> is the overridable admission method;
  \<open>textureProperty\<close> reads \<^verbatim>\<open>targetObject[this._textureProperty]\<close>.
\<close>

record 'o BatchGenerator =
  gen_state :: "pstate option"
  textureIncrement :: nat
  textureLimit :: nat
  textureProperty :: "'o \<Rightarrow> texval"
  gen_batchBuffer :: "'o list"
  gen_textureBuffer :: "nat option \<rightharpoonup> texval"
  textureBufferLength :: nat
  textureIndexedBuffer :: "texval list"
  textureIndexMap :: "nat option \<rightharpoonup> nat"
  enableTextureReduction :: bool
  putTexture :: putTextureRoutine
  onPut :: "'o \<Rightarrow> bool"

definition newBatchGenerator ::
  "nat \<Rightarrow> nat \<Rightarrow> ('o \<Rightarrow> texval) \<Rightarrow> bool \<Rightarrow> 'o BatchGenerator" where
  "newBatchGenerator textureIncrement' textureLimit' textureProperty' enableTextureReduction' =
     \<lparr> gen_state = None,
       textureIncrement = textureIncrement',
       textureLimit = textureLimit',
       textureProperty = textureProperty',
       gen_batchBuffer = [],
       gen_textureBuffer = Map.empty,
       textureBufferLength = 0,
       textureIndexedBuffer = [],
       textureIndexMap = Map.empty,
       enableTextureReduction = enableTextureReduction',
       putTexture =
         (if enableTextureReduction'
          then (if textureIncrement' = 1 then PutOnlyTexture else PutTextureArray)
          else if textureIncrement' = 1 then PutTextureWithoutReduction
          else PutTextureArrayWithoutReduction),
       onPut = (\<lambda>targetObject. True) \<rparr>"

text \<open>
  Registering one texture that is not yet in \<^verbatim>\<open>_textureBuffer\<close>: the four statements
  shared by \<^verbatim>\<open>_putOnlyTexture\<close> and the second loop of \<^verbatim>\<open>_putTextureArray\<close>.
  \<^verbatim>\<open>push\<close> returns the new length, so the index is the old length.
\<close>

definition registerTexture :: "'o BatchGenerator \<Rightarrow> texval \<Rightarrow> 'o BatchGenerator" where
  "registerTexture g texture =
     g\<lparr> gen_textureBuffer := (gen_textureBuffer g)(uidOf texture \<mapsto> texture),
        textureBufferLength := textureBufferLength g + 1,
        textureIndexedBuffer := textureIndexedBuffer g @ [texture],
        textureIndexMap := (textureIndexMap g)(uidOf texture \<mapsto> length (textureIndexedBuffer g)) \<rparr>"

definition putOnlyTexture :: "'o BatchGenerator \<Rightarrow> texval \<Rightarrow> bool \<times> 'o BatchGenerator" where
  "putOnlyTexture g texture =
     (let baseTexture = baseOf texture in
      if gen_textureBuffer g (uidOf baseTexture) \<noteq> None then (True, g)
      else if textureBufferLength g + 1 \<le> textureLimit g
      then (True, registerTexture g baseTexture)
      else (False, g))"

text \<open>The first loop of \<^verbatim>\<open>_putTextureArray\<close>, counting into \<^verbatim>\<open>deltaBufferLength\<close>.\<close>

fun deltaBufferLength :: "'o BatchGenerator \<Rightarrow> texval list \<Rightarrow> nat" where
  "deltaBufferLength g [] = 0"
| "deltaBufferLength g (t # ts) =
     (if gen_textureBuffer g (uidOf (baseOf t)) = None then 1 else 0) + deltaBufferLength g ts"

text \<open>The second loop of \<^verbatim>\<open>_putTextureArray\<close>.\<close>

fun registerTextures :: "'o BatchGenerator \<Rightarrow> texval list \<Rightarrow> 'o BatchGenerator" where
  "registerTextures g [] = g"
| "registerTextures g (t # ts) =
     registerTextures
       (if gen_textureBuffer g (uidOf (baseOf t)) = None then registerTexture g (baseOf t) else g)
       ts"

definition putTextureArray :: "'o BatchGenerator \<Rightarrow> texval \<Rightarrow> bool \<times> 'o BatchGenerator" where
  "putTextureArray g textureArray =
     (if deltaBufferLength g (elems textureArray) + textureBufferLength g > textureLimit g
      then (False, g)
      else (True, registerTextures g (elems textureArray)))"

definition putTextureWithoutReduction ::
  "'o BatchGenerator \<Rightarrow> texval \<Rightarrow> bool \<times> 'o BatchGenerator" where
  "putTextureWithoutReduction g texture =
     (if textureBufferLength g + 1 > textureLimit g then (False, g)
      else (True, g\<lparr>textureIndexedBuffer := textureIndexedBuffer g @ [baseOf texture]\<rparr>))"

text \<open>
  In \<^verbatim>\<open>_putTextureArrayWithoutReduction\<close> the sum with an \<^verbatim>\<open>undefined\<close> length is
  \<^verbatim>\<open>NaN\<close>, and no comparison with \<^verbatim>\<open>NaN\<close> holds.
\<close>

definition putTextureArrayWithoutReduction ::
  "'o BatchGenerator \<Rightarrow> texval \<Rightarrow> bool \<times> 'o BatchGenerator" where
  "putTextureArrayWithoutReduction g textureArray =
     (if (case lengthOf textureArray of
            None \<Rightarrow> False
          | Some n \<Rightarrow> textureBufferLength g + n > textureLimit g)
      then (False, g)
      else (True, g\<lparr>textureIndexedBuffer :=
                      textureIndexedBuffer g @ map baseOf (elems textureArray)\<rparr>))"

text \<open>The call \<^verbatim>\<open>this._putTexture(...)\<close> of the stored method.\<close>

definition callPutTexture :: "'o BatchGenerator \<Rightarrow> texval \<Rightarrow> bool \<times> 'o BatchGenerator" where
  "callPutTexture g tex =
     (case putTexture g of
        PutOnlyTexture \<Rightarrow> putOnlyTexture g tex
      | PutTextureArray \<Rightarrow> putTextureArray g tex
      | PutTextureWithoutReduction \<Rightarrow> putTextureWithoutReduction g tex
      | PutTextureArrayWithoutReduction \<Rightarrow> putTextureArrayWithoutReduction g tex)"

text \<open>
  \<^verbatim>\<open>put\<close>, after its first statement: the admission method, the texture step and the
  push onto \<^verbatim>\<open>_batchBuffer\<close>.
\<close>

definition putAdmit :: "'o BatchGenerator \<Rightarrow> 'o \<Rightarrow> bool \<times> 'o BatchGenerator" where
  "putAdmit g targetObject =
     (if \<not> onPut g targetObject then (False, g)
      else if 0 < textureIncrement g then
        (case callPutTexture g (textureProperty g targetObject) of
           (False, g') \<Rightarrow> (False, g')
         | (True, g') \<Rightarrow> (True, g'\<lparr>gen_batchBuffer := gen_batchBuffer g' @ [targetObject]\<rparr>))
      else (True, g\<lparr>gen_batchBuffer := gen_batchBuffer g @ [targetObject]\<rparr>))"

definition put :: "'o BatchGenerator \<Rightarrow> 'o \<Rightarrow> pstate \<Rightarrow> bool \<times> 'o BatchGenerator" where
  "put g targetObject st =
     (case gen_state g of
        None \<Rightarrow> putAdmit (g\<lparr>gen_state := Some st\<rparr>) targetObject
      | Some s \<Rightarrow> if data s \<noteq> data st then (False, g) else putAdmit g targetObject)"

section \<open>Batch\<close>

text \<open>
  \<^verbatim>\<open>null\<close> fields are \<open>None\<close>. The constructor does not assign \<^verbatim>\<open>batchBuffer\<close>;
  \<^verbatim>\<open>finalize\<close> assigns it before anything reads it, and the model starts it empty.
\<close>

record 'o Batch =
  geometryOffset :: nat
  batchBuffer :: "'o list"
  textureBuffer :: "texval list option"
  uidMap :: "(nat option \<rightharpoonup> nat) option"
  state :: "pstate option"

definition newBatchObject :: "nat \<Rightarrow> 'o Batch" where
  "newBatchObject geometryOffset' =
     \<lparr> geometryOffset = geometryOffset', batchBuffer = [], textureBuffer = None,
       uidMap = None, state = None \<rparr>"

definition reset :: "'o Batch \<Rightarrow> 'o Batch" where
  "reset batch = batch\<lparr>textureBuffer := None, uidMap := None, state := None\<rparr>"

definition finalize :: "'o BatchGenerator \<Rightarrow> 'o Batch \<Rightarrow> 'o Batch \<times> 'o BatchGenerator" where
  "finalize g batch =
     (batch\<lparr> batchBuffer := gen_batchBuffer g,
             textureBuffer := Some (textureIndexedBuffer g),
             uidMap := (if enableTextureReduction g then Some (textureIndexMap g) else None),
             state := gen_state g \<rparr>,
      g\<lparr> gen_state := None,
         gen_batchBuffer := [],
         gen_textureBuffer := Map.empty,
         textureIndexMap := Map.empty,
         textureBufferLength := 0,
         textureIndexedBuffer := [] \<rparr>)"

section \<open>BatchRenderer: context initialisation and the batching stage of flush\<close>

datatype error = Error string | TypeError | SyntaxError

text \<open>
  What \<^verbatim>\<open>contextChange\<close> reads from the environment: whether
  \<^verbatim>\<open>settings.PREFER_ENV\<close> is \<^verbatim>\<open>ENV.WEBGL_LEGACY\<close>, the context's
  \<^verbatim>\<open>MAX_TEXTURE_IMAGE_UNITS\<close> and \<^verbatim>\<open>settings.SPRITE_MAX_TEXTURES\<close>.
\<close>

record glEnv =
  preferLegacy :: bool
  maxTextureImageUnits :: nat
  spriteMaxTextures :: nat

text \<open>
  The fields of \<^verbatim>\<open>BatchRenderer\<close> that batching uses. \<open>BatchGeneratorClass\<close> is the
  constructor of the generator class the renderer was given; \<open>stateFunction\<close> is
  \<^verbatim>\<open>resolveFunctionOrProperty(target, stateFunction)\<close>. \<open>batchGenerator\<close> holds the
  generator of the last \<^verbatim>\<open>contextChange\<close>.
\<close>

record 'o BatchRenderer =
  texturePerObject :: nat
  rendererTextureProperty :: "'o \<Rightarrow> texval"
  stateFunction :: "'o \<Rightarrow> pstate"
  BatchGeneratorClass :: "nat \<Rightarrow> nat \<Rightarrow> ('o \<Rightarrow> texval) \<Rightarrow> bool \<Rightarrow> 'o BatchGenerator"
  batchGenerator :: "'o BatchGenerator"
  MAX_TEXTURES :: nat
  objectBuffer :: "'o list"
  batchPool :: "'o Batch list"
  batchCount :: nat

text \<open>
  \<^verbatim>\<open>contextChange\<close> assigns \<^verbatim>\<open>MAX_TEXTURES\<close> and \<^verbatim>\<open>_batchGenerator\<close> and then
  throws when the generator reports texture reduction disabled; the thrown error is the
  result \<open>Inl\<close>.
\<close>

definition contextChange :: "glEnv \<Rightarrow> 'o BatchRenderer \<Rightarrow> error + 'o BatchRenderer" where
  "contextChange gl r =
     (let maxTextures =
            (if preferLegacy gl then 1
             else min (maxTextureImageUnits gl) (spriteMaxTextures gl));
          g = BatchGeneratorClass r (texturePerObject r) maxTextures
                (rendererTextureProperty r) True
      in if \<not> enableTextureReduction g
         then Inl (Error (''PIXI.brend.BatchRenderer does not support ''
                          @ ''batch generation without texture reduction enabled.''))
         else Inr (r\<lparr>MAX_TEXTURES := maxTextures, batchGenerator := g\<rparr>))"

text \<open>
  \<^verbatim>\<open>start\<close> empties the object buffer (and resets the vertex and index counts and binds
  the shader, which batching does not read); \<^verbatim>\<open>render\<close> appends the object.
\<close>

definition start :: "'o BatchRenderer \<Rightarrow> 'o BatchRenderer" where
  "start r = r\<lparr>objectBuffer := []\<rparr>"

definition render :: "'o BatchRenderer \<Rightarrow> 'o \<Rightarrow> 'o BatchRenderer" where
  "render r displayObject = r\<lparr>objectBuffer := objectBuffer r @ [displayObject]\<rparr>"

text \<open>
  \<^verbatim>\<open>_newBatch\<close> returns a batch object of the pool; the model returns its position in
  \<^verbatim>\<open>_batchPool\<close>. \<^verbatim>\<open>flush\<close> sets \<^verbatim>\<open>_batchCount\<close> to 0 before its first call, so
  \<^verbatim>\<open>_batchCount\<close> never exceeds the pool's length and the read of the pool is in range.
\<close>

definition newBatch :: "'o BatchRenderer \<Rightarrow> nat \<Rightarrow> nat \<times> 'o BatchRenderer" where
  "newBatch r batchStart =
     (if batchCount r = length (batchPool r)
      then (batchCount r,
            r\<lparr> batchPool := batchPool r @ [newBatchObject batchStart],
               batchCount := batchCount r + 1 \<rparr>)
      else (batchCount r,
            r\<lparr> batchPool := (batchPool r)
                 [batchCount r := (reset (batchPool r ! batchCount r))
                                    \<lparr>geometryOffset := batchStart\<rparr>],
               batchCount := batchCount r + 1 \<rparr>))"

text \<open>\<^verbatim>\<open>batchGenerator.finalize(this._newBatch(batchStart))\<close>\<close>

definition finalizeNewBatch :: "'o BatchRenderer \<Rightarrow> nat \<Rightarrow> 'o BatchRenderer" where
  "finalizeNewBatch r batchStart =
     (let (i, r1) = newBatch r batchStart;
          (batch, g) = finalize (batchGenerator r1) (batchPool r1 ! i)
      in r1\<lparr>batchPool := (batchPool r1)[i := batch], batchGenerator := g\<rparr>)"

text \<open>
  The loop \<^verbatim>\<open>for (let objectIndex = 0; objectIndex < bufferLength;)\<close> of
  \<^verbatim>\<open>flush\<close>. It does not advance when \<^verbatim>\<open>put\<close> refuses, so it need not end: the
  model runs it on fuel, one unit for each test of the loop condition, and \<open>None\<close> says
  that the fuel ran out. The result carries the local \<^verbatim>\<open>batchStart\<close>.
\<close>

fun flushLoop ::
  "nat \<Rightarrow> 'o BatchRenderer \<Rightarrow> nat \<Rightarrow> nat \<Rightarrow> ('o BatchRenderer \<times> nat) option" where
  "flushLoop 0 r batchStart objectIndex = None"
| "flushLoop (Suc fuel) r batchStart objectIndex =
     (if objectIndex < length (objectBuffer r) then
        (let target = objectBuffer r ! objectIndex;
             (wasPut, g) = put (batchGenerator r) target (stateFunction r target)
         in if \<not> wasPut
            then flushLoop fuel (finalizeNewBatch (r\<lparr>batchGenerator := g\<rparr>) batchStart)
                   objectIndex objectIndex
            else flushLoop fuel (r\<lparr>batchGenerator := g\<rparr>) batchStart (objectIndex + 1))
      else Some (r, batchStart))"

text \<open>
  The batching stage of \<^verbatim>\<open>flush\<close>: the loop, then the last batch when the generator
  still holds members. Packing and drawing come after it.
\<close>

definition flush :: "nat \<Rightarrow> 'o BatchRenderer \<Rightarrow> 'o BatchRenderer option" where
  "flush fuel r =
     (case flushLoop fuel (r\<lparr>batchCount := 0\<rparr>) 0 0 of
        None \<Rightarrow> None
      | Some (r1, batchStart) \<Rightarrow>
          Some (if gen_batchBuffer (batchGenerator r1) \<noteq> []
                then finalizeNewBatch r1 batchStart else r1))"

text \<open>The batches of a flush: the first \<^verbatim>\<open>_batchCount\<close> entries of the pool.\<close>

definition batches :: "'o BatchRenderer \<Rightarrow> 'o Batch list" where
  "batches r = take (batchCount r) (batchPool r)"

section \<open>Notions used to state the properties\<close>

text \<open>
  The accumulation state that \<^verbatim>\<open>finalize\<close> leaves behind, which is also the state the
  constructor creates; an accumulator in that state is idle.
\<close>

definition cleared :: "'o BatchGenerator \<Rightarrow> 'o BatchGenerator" where
  "cleared g =
     g\<lparr> gen_state := None, gen_batchBuffer := [], gen_textureBuffer := Map.empty,
        textureIndexMap := Map.empty, textureBufferLength := 0, textureIndexedBuffer := [] \<rparr>"

definition idle :: "'o BatchGenerator \<Rightarrow> bool" where
  "idle g \<longleftrightarrow> cleared g = g"

text \<open>The accumulator after \<^verbatim>\<open>put(x, stateFunction(x))\<close> for each \<open>x\<close> of a list, in order.\<close>

fun putAll :: "'o BatchGenerator \<Rightarrow> ('o \<Rightarrow> pstate) \<Rightarrow> 'o list \<Rightarrow> 'o BatchGenerator" where
  "putAll g sf [] = g"
| "putAll g sf (x # xs) = putAll (snd (put g x (sf x))) sf xs"

text \<open>
  The number of texture units an object asks of an empty batch: one for the routines that
  take a single texture, the length of its texture array for the array routines.
\<close>

definition textureRequirement :: "'o BatchGenerator \<Rightarrow> 'o \<Rightarrow> nat" where
  "textureRequirement g x =
     (case putTexture g of
        PutOnlyTexture \<Rightarrow> 1
      | PutTextureWithoutReduction \<Rightarrow> 1
      | PutTextureArray \<Rightarrow> length (elems (textureProperty g x))
      | PutTextureArrayWithoutReduction \<Rightarrow> length (elems (textureProperty g x)))"

text \<open>
  An object is admissible when the admission method accepts it and, if the generator
  handles textures at all, its texture requirement is within the limit.
\<close>

definition admissible :: "'o BatchGenerator \<Rightarrow> 'o \<Rightarrow> bool" where
  "admissible g x \<longleftrightarrow>
     onPut g x \<and> (0 < textureIncrement g \<longrightarrow> textureRequirement g x \<le> textureLimit g)"

text \<open>
  For a list of member lists: the first member of every list but the first was refused by
  \<^verbatim>\<open>put\<close> on the accumulator that had taken in exactly the members of the list before.
\<close>

definition boundariesRefused ::
  "'o BatchGenerator \<Rightarrow> ('o \<Rightarrow> pstate) \<Rightarrow> 'o list list \<Rightarrow> bool" where
  "boundariesRefused g sf segs \<longleftrightarrow>
     (\<forall>k. Suc k < length segs \<longrightarrow>
        \<not> fst (put (putAll g sf (segs ! k)) (hd (segs ! Suc k)) (sf (hd (segs ! Suc k)))))"

text \<open>Loop invariants of the batching loop.\<close>

definition orderInv :: "'o list \<Rightarrow> 'o BatchRenderer \<Rightarrow> nat \<Rightarrow> nat \<Rightarrow> bool" where
  "orderInv buf r batchStart i \<longleftrightarrow>
     objectBuffer r = buf \<and> i \<le> length buf \<and> batchCount r \<le> length (batchPool r) \<and>
     concat (map batchBuffer (batches r)) @ gen_batchBuffer (batchGenerator r) = take i buf"

definition greedyInv ::
  "'o list \<Rightarrow> ('o \<Rightarrow> pstate) \<Rightarrow> 'o BatchGenerator \<Rightarrow> 'o BatchRenderer \<Rightarrow> nat \<Rightarrow> nat \<Rightarrow> bool"
  where
  "greedyInv buf sf g0 r batchStart i \<longleftrightarrow>
     orderInv buf r batchStart i \<and> stateFunction r = sf \<and> cleared (batchGenerator r) = g0 \<and>
     batchGenerator r = putAll g0 sf (gen_batchBuffer (batchGenerator r)) \<and>
     boundariesRefused g0 sf
       (map batchBuffer (batches r) @ [gen_batchBuffer (batchGenerator r) @ drop i buf]) \<and>
     (\<forall>b \<in> set (batches r). batchBuffer b \<noteq> [])"

definition stateInv :: "('o \<Rightarrow> pstate) \<Rightarrow> 'o BatchRenderer \<Rightarrow> nat \<Rightarrow> nat \<Rightarrow> bool" where
  "stateInv sf r batchStart i \<longleftrightarrow>
     stateFunction r = sf \<and> batchCount r \<le> length (batchPool r) \<and>
     (\<forall>x \<in> set (gen_batchBuffer (batchGenerator r)).
        \<exists>s. gen_state (batchGenerator r) = Some s \<and> data (sf x) = data s) \<and>
     (\<forall>b \<in> set (batches r). \<forall>x \<in> set (batchBuffer b).
        \<exists>s. state b = Some s \<and> data (sf x) = data s)"

definition reductionInv :: "'o BatchRenderer \<Rightarrow> nat \<Rightarrow> nat \<Rightarrow> bool" where
  "reductionInv r batchStart i \<longleftrightarrow>
     enableTextureReduction (batchGenerator r) \<and> batchCount r \<le> length (batchPool r) \<and>
     (\<forall>b \<in> set (batches r). uidMap b \<noteq> None)"

text \<open>
  The states of a renderer in operation: after a \<^verbatim>\<open>contextChange\<close> that did not throw,
  and from there after any \<^verbatim>\<open>render\<close> and any flush that returned.
\<close>

inductive operating :: "'o BatchRenderer \<Rightarrow> bool" where
  initialised: "contextChange gl r = Inr r' \<Longrightarrow> operating r'"
| rendered: "operating r \<Longrightarrow> operating (render r displayObject)"
| flushed: "operating r \<Longrightarrow> flush fuel r = Some r' \<Longrightarrow> operating r'"

section \<open>BufferPool\<close>

text \<open>
  Modelled from the spec: \<^verbatim>\<open>nextPow2\<close> and \<^verbatim>\<open>log2\<close> are imported from @pixi/utils
  and are not among this repository's sources. By the spec a capacity is rounded to the
  next power of two and the free lists are keyed by size class: \<open>nextPow2 n\<close> is the least
  power of two that is at least \<open>n\<close>, and \<open>log2\<close> of a power of two is its exponent.
\<close>

fun log2 :: "nat \<Rightarrow> nat" where
  "log2 n = (if n < 2 then 0 else Suc (log2 (n div 2)))"

declare log2.simps [simp del]

definition nextPow2 :: "nat \<Rightarrow> nat" where
  "nextPow2 n = (if n \<le> 1 then 1 else 2 ^ Suc (log2 (n - 1)))"

text \<open>
  A JavaScript array with holes is a list of options. Reading past the end gives
  \<^verbatim>\<open>undefined\<close>; assigning \<^verbatim>\<open>length\<close> or an element past the end extends the array
  with holes.
\<close>

definition getAt :: "'a option list \<Rightarrow> nat \<Rightarrow> 'a option" where
  "getAt xs i = (if i < length xs then xs ! i else None)"

definition setLength :: "'a option list \<Rightarrow> nat \<Rightarrow> 'a option list" where
  "setLength xs n = take n xs @ replicate (n - length xs) None"

definition setAt :: "'a option list \<Rightarrow> nat \<Rightarrow> 'a \<Rightarrow> 'a option list" where
  "setAt xs i v = (setLength xs (max (length xs) (i + 1)))[i := Some v]"

text \<open>
  A buffer is the list of its elements. \<^verbatim>\<open>new bufferType(n)\<close> makes an array-like of
  length \<open>n\<close>, which the model fills with \<open>initial\<close>.
\<close>

record 'a BufferPool =
  bufferPools :: "'a list list option list"
  initial :: 'a

definition newBufferPool :: "'a \<Rightarrow> 'a BufferPool" where
  "newBufferPool v = \<lparr>bufferPools = [], initial = v\<rparr>"

text \<open>
  \<^verbatim>\<open>bufferPool.pop() || new bufferType(roundedSize)\<close>: \<^verbatim>\<open>pop\<close> takes the last buffer
  of the free list, and gives \<^verbatim>\<open>undefined\<close> on an empty list.
\<close>

definition allocateBuffer :: "'a BufferPool \<Rightarrow> nat \<Rightarrow> 'a list \<times> 'a BufferPool" where
  "allocateBuffer p size' =
     (let roundedP2 = nextPow2 size';
          roundedSizeIndex = log2 roundedP2;
          roundedSize = roundedP2;
          pools1 = (if length (bufferPools p) \<le> roundedSizeIndex
                    then setLength (bufferPools p) (roundedSizeIndex + 1)
                    else bufferPools p);
          (bufferPool, pools2) =
            (case getAt pools1 roundedSizeIndex of
               None \<Rightarrow> ([], setAt pools1 roundedSizeIndex [])
             | Some q \<Rightarrow> (q, pools1))
      in if bufferPool = []
         then (replicate roundedSize (initial p), p\<lparr>bufferPools := pools2\<rparr>)
         else (last bufferPool,
               p\<lparr>bufferPools := setAt pools2 roundedSizeIndex (butlast bufferPool)\<rparr>))"

definition releaseBuffer :: "'a BufferPool \<Rightarrow> 'a list \<Rightarrow> 'a BufferPool" where
  "releaseBuffer p buffer =
     (let roundedP2 = nextPow2 (length buffer);
          roundedSizeIndex = log2 roundedP2;
          (bufferPool, pools1) =
            (case getAt (bufferPools p) roundedSizeIndex of
               None \<Rightarrow> ([], setAt (bufferPools p) roundedSizeIndex [])
             | Some q \<Rightarrow> (q, bufferPools p))
      in p\<lparr>bufferPools := setAt pools1 roundedSizeIndex (bufferPool @ [buffer])\<rparr>)"

text \<open>
  A pool is size-classed when every pooled buffer has the length of its class: the free
  list at index \<open>i\<close> holds buffers of length \<open>2 ^ i\<close> only.
\<close>

definition sizeClassed :: "'a BufferPool \<Rightarrow> bool" where
  "sizeClassed p \<longleftrightarrow>
     (\<forall>i q. getAt (bufferPools p) i = Some q \<longrightarrow> (\<forall>b \<in> set q. length b = 2 ^ i))"

section \<open>AttributeRedirect and GeometryPacker\<close>

datatype elemType = Int8 | Uint8 | Int16 | Uint16 | Int32 | Uint32 | Float32

text \<open>
  Modelled from the spec: \<^verbatim>\<open>ViewableBuffer\<close> is a class of pixi.js and not among this
  repository's sources. \<open>sizeOf\<close> is the byte width of an element type.
\<close>

fun sizeOf :: "elemType \<Rightarrow> nat" where
  "sizeOf Int8 = 1"
| "sizeOf Uint8 = 1"
| "sizeOf Int16 = 2"
| "sizeOf Uint16 = 2"
| "sizeOf Int32 = 4"
| "sizeOf Uint32 = 4"
| "sizeOf Float32 = 4"

text \<open>A number in a cell of a view, or the result of reading \<^verbatim>\<open>undefined\<close> as a number.\<close>

datatype number = Num rat | NaN

text \<open>
  Modelled from the spec: a \<^verbatim>\<open>ViewableBuffer\<close> of a given byte size, seen through its
  typed views. Each view is kept as its own array of cells, and a cell holds the number
  written to it: the aliasing of the views over one array of bytes and the conversion of
  a number to the element type of the view are not modelled. For a layout that writes
  through \<^verbatim>\<open>float32View\<close> only, with numbers that float32 represents exactly, this is
  what the buffer holds. A new buffer is zeroed.
\<close>

type_synonym ViewableBuffer = "elemType \<Rightarrow> number list"

definition newViewableBuffer :: "nat \<Rightarrow> ViewableBuffer" where
  "newViewableBuffer bytes = (\<lambda>ty. replicate (bytes div sizeOf ty) (Num 0))"

text \<open>
  An assignment \<^verbatim>\<open>view[index] = v\<close> to a typed array: it stores when the index is an
  integer within the array and does nothing otherwise.
\<close>

definition writeCell :: "number list \<Rightarrow> rat \<Rightarrow> number \<Rightarrow> number list" where
  "writeCell cells index v =
     (if 0 \<le> index \<and> of_int \<lfloor>index\<rfloor> = index \<and> nat \<lfloor>index\<rfloor> < length cells
      then cells[nat \<lfloor>index\<rfloor> := v] else cells)"

text \<open>The size of a redirect's source: a number, or \<^verbatim>\<open>'%notarray%'\<close>.\<close>

datatype redirectSize = Size nat | NotArray

text \<open>What a redirect's source yields for an object: a number or an array of numbers.\<close>

datatype srcval = Scalar rat | Elements "rat list"

text \<open>
  The fields of \<^verbatim>\<open>AttributeRedirect\<close> that the packer reads. \<open>source\<close> is the property
  lookup or the callback.
\<close>

record 'o AttributeRedirect =
  source :: "'o \<Rightarrow> srcval"
  type :: elemType
  size' :: redirectSize

definition properSize :: "'o AttributeRedirect \<Rightarrow> nat" where
  "properSize redirect = (case size' redirect of NotArray \<Rightarrow> 1 | Size n \<Rightarrow> n)"

definition vertexSizeFor :: "'o AttributeRedirect list \<Rightarrow> nat" where
  "vertexSizeFor attributeRedirects =
     foldl (\<lambda>acc redirect. sizeOf (type redirect) * properSize redirect + acc) 0
       attributeRedirects"

text \<open>
  The fields of \<^verbatim>\<open>GeometryPacker\<close>. \<open>indexProperty\<close> reads the object's index array,
  \<open>vertexCountProperty\<close> the object's vertex count (a property or a constant); each is
  \<open>None\<close> when the packer was constructed without it.
\<close>

record 'o GeometryPacker =
  targetCompositeAttributeBuffer :: "ViewableBuffer option"
  targetCompositeIndexBuffer :: "16 word list option"
  aIndex :: rat
  iIndex :: nat
  attributeRedirects :: "'o AttributeRedirect list"
  indexProperty :: "('o \<Rightarrow> nat list) option"
  vertexCountProperty :: "('o \<Rightarrow> rat) option"
  vertexSize :: nat
  packerTexturePerObject :: nat
  aBuffers :: "ViewableBuffer option list"
  iBuffers :: "16 word list option list"

text \<open>The constructor, with the vertex size calculated by default.\<close>

definition newGeometryPacker ::
  "'o AttributeRedirect list \<Rightarrow> ('o \<Rightarrow> nat list) option \<Rightarrow> ('o \<Rightarrow> rat) option \<Rightarrow> nat
     \<Rightarrow> 'o GeometryPacker" where
  "newGeometryPacker attributeRedirects' indexProperty' vertexCountProperty' texturePerObject' =
     \<lparr> targetCompositeAttributeBuffer = None,
       targetCompositeIndexBuffer = None,
       aIndex = 0,
       iIndex = 0,
       attributeRedirects = attributeRedirects',
       indexProperty = indexProperty',
       vertexCountProperty = vertexCountProperty',
       vertexSize = vertexSizeFor attributeRedirects' + texturePerObject' * 4,
       packerTexturePerObject = texturePerObject',
       aBuffers = [],
       iBuffers = [] \<rparr>"

text \<open>
  \<^verbatim>\<open>getAttributeBuffer\<close> looks a buffer up at \<^verbatim>\<open>roundedSizeIndex\<close> and stores a new
  one at \<^verbatim>\<open>roundedSize\<close>; \<^verbatim>\<open>getIndexBuffer\<close> looks up and stores at
  \<^verbatim>\<open>roundedSizeIndex\<close>. \<^verbatim>\<open>Math.ceil(size / 8)\<close> is \<open>(size + 7) div 8\<close>. The buffer
  object is shared between the cache and the packer's target; the model returns its value,
  so a buffer that comes from the cache has the contents it was stored with.
\<close>

definition getAttributeBuffer ::
  "'o GeometryPacker \<Rightarrow> nat \<Rightarrow> ViewableBuffer \<times> 'o GeometryPacker" where
  "getAttributeBuffer p size'' =
     (let roundedP2 = nextPow2 ((size'' + 7) div 8);
          roundedSizeIndex = log2 roundedP2;
          roundedSize = roundedP2 * 8;
          aBuffers1 = (if length (aBuffers p) \<le> roundedSizeIndex
                       then setLength (aBuffers p) (roundedSizeIndex + 1)
                       else aBuffers p)
      in case getAt aBuffers1 roundedSizeIndex of
           Some buffer \<Rightarrow> (buffer, p\<lparr>aBuffers := aBuffers1\<rparr>)
         | None \<Rightarrow>
             (let buffer = newViewableBuffer (roundedSize * vertexSize p)
              in (buffer, p\<lparr>aBuffers := setAt aBuffers1 roundedSize buffer\<rparr>)))"

definition getIndexBuffer ::
  "'o GeometryPacker \<Rightarrow> nat \<Rightarrow> 16 word list \<times> 'o GeometryPacker" where
  "getIndexBuffer p size'' =
     (let roundedP2 = nextPow2 ((size'' + 11) div 12);
          roundedSizeIndex = log2 roundedP2;
          roundedSize = roundedP2 * 12;
          iBuffers1 = (if length (iBuffers p) \<le> roundedSizeIndex
                       then setLength (iBuffers p) (roundedSizeIndex + 1)
                       else iBuffers p)
      in case getAt iBuffers1 roundedSizeIndex of
           Some buffer \<Rightarrow> (buffer, p\<lparr>iBuffers := iBuffers1\<rparr>)
         | None \<Rightarrow>
             (let buffer = replicate roundedSize 0
              in (buffer, p\<lparr>iBuffers := setAt iBuffers1 roundedSizeIndex buffer\<rparr>)))"

text \<open>\<^verbatim>\<open>reset(batchVertexCount, batchIndexCount)\<close> of the packer.\<close>

definition resetPacker :: "'o GeometryPacker \<Rightarrow> nat \<Rightarrow> nat \<Rightarrow> 'o GeometryPacker" where
  "resetPacker p batchVertexCount batchIndexCount =
     (let (attributeBuffer, p1) = getAttributeBuffer p batchVertexCount;
          p2 = p1\<lparr>targetCompositeAttributeBuffer := Some attributeBuffer\<rparr>;
          p3 = (if indexProperty p2 \<noteq> None
                then (let (indexBuffer, p') = getIndexBuffer p2 batchIndexCount
                      in p'\<lparr>targetCompositeIndexBuffer := Some indexBuffer\<rparr>)
                else p2)
      in p3\<lparr>aIndex := 0, iIndex := 0\<rparr>)"

subsection \<open>The packer function that FunctionCompiler generates\<close>

text \<open>
  \<^verbatim>\<open>compile\<close> builds the text of a function from fragments. The model builds the same
  function as data: each statement below is one fragment that \<^verbatim>\<open>compile\<close> appends to
  the body of the vertex loop, with the constants it splices in.
\<close>

datatype stmt =
    SetAdjusted nat
      \<comment> \<open>\<^verbatim>\<open>adjustedAIndex = aIndex / size;\<close>\<close>
  | CopyElement elemType nat
      \<comment> \<open>\<^verbatim>\<open>typeView[adjustedAIndex++] = __buffer_i[__offset_i++];\<close>\<close>
  | CopyWhole elemType nat
      \<comment> \<open>\<^verbatim>\<open>typeView[adjustedAIndex++] = __buffer_i;\<close>\<close>
  | SetAIndex nat
      \<comment> \<open>\<^verbatim>\<open>aIndex = adjustedAIndex * size;\<close>\<close>
  | TextureAt nat
      \<comment> \<open>\<^verbatim>\<open>float32View[adjustedAIndex++] = textureId[k];\<close>\<close>
  | TextureAtAIndex
      \<comment> \<open>\<^verbatim>\<open>float32View[aIndex] = textureId; aIndex += 4;\<close>\<close>
  | TextureAtAdjusted
      \<comment> \<open>\<^verbatim>\<open>float32View[adjustedAIndex++] = textureId; aIndex = adjustedAIndex * 4;\<close>\<close>

text \<open>
  The loop of \<^verbatim>\<open>compile\<close> over the redirects from position \<open>i\<close>, with the flag
  \<^verbatim>\<open>skipReverseTransformation\<close>; it returns the fragments and the flag.
\<close>

fun compileRedirects ::
  "'o AttributeRedirect list \<Rightarrow> nat \<Rightarrow> bool \<Rightarrow> stmt list \<times> bool" where
  "compileRedirects [] i skipReverseTransformation = ([], skipReverseTransformation)"
| "compileRedirects (redirect # rest) i skipReverseTransformation =
     (let initialise =
            (if \<not> skipReverseTransformation then [SetAdjusted (sizeOf (type redirect))]
             else []);
          copy =
            (case size' redirect of
               Size n \<Rightarrow> replicate n (CopyElement (type redirect) i)
             | NotArray \<Rightarrow> [CopyWhole (type redirect) i]);
          (reverse, skip1) =
            (case rest of
               next # _ \<Rightarrow>
                 if sizeOf (type next) \<noteq> sizeOf (type redirect)
                 then ([SetAIndex (sizeOf (type redirect))], skipReverseTransformation)
                 else ([], True)
             | [] \<Rightarrow> ([], True));
          (others, skip2) = compileRedirects rest (i + 1) skip1
      in (initialise @ copy @ reverse @ others, skip2))"

text \<open>The fragments for the texture ids, after the redirects.\<close>

definition compileTextures :: "nat \<Rightarrow> bool \<Rightarrow> stmt list" where
  "compileTextures texturePerObject' skipReverseTransformation =
     (if texturePerObject' > 0 then
        (if texturePerObject' > 1 then
           (if \<not> skipReverseTransformation then [SetAdjusted 4] else [])
           @ map TextureAt [0..<texturePerObject'] @ [SetAIndex 4]
         else if \<not> skipReverseTransformation then [TextureAtAIndex]
         else [TextureAtAdjusted])
      else [])"

text \<open>The body of the vertex loop.\<close>

definition compileBody :: "'o GeometryPacker \<Rightarrow> stmt list" where
  "compileBody p =
     (let (fragments, skip) = compileRedirects (attributeRedirects p) 0 False;
          (final, skip') =
            (if skip \<and> sizeOf (type (last (attributeRedirects p))) \<noteq> 4
             then ([SetAIndex (sizeOf (type (last (attributeRedirects p))))], False)
             else ([], skip))
      in fragments @ final @ compileTextures (packerTexturePerObject p) skip')"

text \<open>
  \<^verbatim>\<open>_compileVertexCountExpression\<close>: the vertex count is the length of the first source
  divided by the first redirect's size, or the object's vertex count property. Reading the
  size of a first redirect that does not exist throws, and the text with
  \<^verbatim>\<open>'%notarray%'\<close> as divisor does not parse.
\<close>

datatype 'o vertexCountExpression =
    LengthOverSize nat
  | CountProperty "'o \<Rightarrow> rat"

definition compileVertexCountExpression ::
  "'o GeometryPacker \<Rightarrow> error + 'o vertexCountExpression" where
  "compileVertexCountExpression p =
     (case vertexCountProperty p of
        None \<Rightarrow>
          (case attributeRedirects p of
             [] \<Rightarrow> Inl TypeError
           | redirect # _ \<Rightarrow>
               (case size' redirect of
                  NotArray \<Rightarrow> Inl SyntaxError
                | Size n \<Rightarrow> Inr (LengthOverSize n)))
      | Some count \<Rightarrow> Inr (CountProperty count))"

record 'o packerFunction =
  sources :: "('o \<Rightarrow> srcval) list"
  vertexCountOf :: "'o vertexCountExpression"
  loopBody :: "stmt list"
  indexArrayOf :: "('o \<Rightarrow> nat list) option"
  vertexSizeConstant :: nat

definition compile :: "'o GeometryPacker \<Rightarrow> error + 'o packerFunction" where
  "compile p =
     (case compileVertexCountExpression p of
        Inl e \<Rightarrow> Inl e
      | Inr count \<Rightarrow>
          Inr \<lparr> sources = map source (attributeRedirects p),
                vertexCountOf = count,
                loopBody = compileBody p,
                indexArrayOf = indexProperty p,
                vertexSizeConstant = vertexSize p \<rparr>)"

subsection \<open>Running the packer function\<close>

text \<open>
  The texture id argument: a number when the renderer has one texture per object, an
  array of numbers otherwise.
\<close>

datatype textureIdArg = TextureId number | TextureIds "number list"

text \<open>\<^verbatim>\<open>textureId[k]\<close>; indexing a number, or past the end, reads \<^verbatim>\<open>undefined\<close>.\<close>

fun textureIdAt :: "textureIdArg \<Rightarrow> nat \<Rightarrow> number" where
  "textureIdAt (TextureIds ns) k = (if k < length ns then ns ! k else NaN)"
| "textureIdAt (TextureId n) k = NaN"

text \<open>
  \<^verbatim>\<open>textureId\<close> stored as a number: an array converts to 0 when empty, to its element
  when it has one, and to \<^verbatim>\<open>NaN\<close> otherwise.
\<close>

fun textureIdNumber :: "textureIdArg \<Rightarrow> number" where
  "textureIdNumber (TextureId n) = n"
| "textureIdNumber (TextureIds []) = Num 0"
| "textureIdNumber (TextureIds [n]) = n"
| "textureIdNumber (TextureIds ns) = NaN"

text \<open>\<^verbatim>\<open>__buffer_i[k]\<close>, \<^verbatim>\<open>__buffer_i\<close> stored as a number, and \<^verbatim>\<open>__buffer_i.length\<close>.\<close>

fun elementAt :: "srcval \<Rightarrow> nat \<Rightarrow> number" where
  "elementAt (Elements xs) k = (if k < length xs then Num (xs ! k) else NaN)"
| "elementAt (Scalar x) k = NaN"

fun wholeNumber :: "srcval \<Rightarrow> number" where
  "wholeNumber (Scalar x) = Num x"
| "wholeNumber (Elements []) = Num 0"
| "wholeNumber (Elements [x]) = Num x"
| "wholeNumber (Elements xs) = NaN"

fun sourceLength :: "srcval \<Rightarrow> nat option" where
  "sourceLength (Elements xs) = Some (length xs)"
| "sourceLength (Scalar x) = None"

text \<open>
  The variables of the vertex loop: the views of \<^verbatim>\<open>compositeAttributes\<close>, the parameter
  \<^verbatim>\<open>aIndex\<close>, \<^verbatim>\<open>adjustedAIndex\<close> and the offsets \<^verbatim>\<open>__offset_i\<close>.
\<close>

record loopState =
  views :: ViewableBuffer
  aIndexVar :: rat
  adjustedAIndex :: rat
  offsets :: "nat list"

fun execStmt :: "srcval list \<Rightarrow> textureIdArg \<Rightarrow> stmt \<Rightarrow> loopState \<Rightarrow> loopState" where
  "execStmt buffers textureId (SetAdjusted sz) s =
     s\<lparr>adjustedAIndex := aIndexVar s / of_nat sz\<rparr>"
| "execStmt buffers textureId (CopyElement ty i) s =
     s\<lparr> views := (views s)
            (ty := writeCell (views s ty) (adjustedAIndex s)
                     (elementAt (buffers ! i) (offsets s ! i))),
         adjustedAIndex := adjustedAIndex s + 1,
         offsets := (offsets s)[i := offsets s ! i + 1] \<rparr>"
| "execStmt buffers textureId (CopyWhole ty i) s =
     s\<lparr> views := (views s)
            (ty := writeCell (views s ty) (adjustedAIndex s) (wholeNumber (buffers ! i))),
         adjustedAIndex := adjustedAIndex s + 1 \<rparr>"
| "execStmt buffers textureId (SetAIndex sz) s =
     s\<lparr>aIndexVar := adjustedAIndex s * of_nat sz\<rparr>"
| "execStmt buffers textureId (TextureAt k) s =
     s\<lparr> views := (views s)
            (Float32 := writeCell (views s Float32) (adjustedAIndex s)
                          (textureIdAt textureId k)),
         adjustedAIndex := adjustedAIndex s + 1 \<rparr>"
| "execStmt buffers textureId TextureAtAIndex s =
     s\<lparr> views := (views s)
            (Float32 := writeCell (views s Float32) (aIndexVar s)
                          (textureIdNumber textureId)),
         aIndexVar := aIndexVar s + 4 \<rparr>"
| "execStmt buffers textureId TextureAtAdjusted s =
     s\<lparr> views := (views s)
            (Float32 := writeCell (views s Float32) (adjustedAIndex s)
                          (textureIdNumber textureId)),
         adjustedAIndex := adjustedAIndex s + 1,
         aIndexVar := (adjustedAIndex s + 1) * 4 \<rparr>"

text \<open>One pass through the body of the vertex loop, and \<open>n\<close> passes.\<close>

fun execBody :: "srcval list \<Rightarrow> textureIdArg \<Rightarrow> stmt list \<Rightarrow> loopState \<Rightarrow> loopState" where
  "execBody buffers textureId [] s = s"
| "execBody buffers textureId (c # cs) s =
     execBody buffers textureId cs (execStmt buffers textureId c s)"

fun vertexLoop ::
  "srcval list \<Rightarrow> textureIdArg \<Rightarrow> stmt list \<Rightarrow> nat \<Rightarrow> loopState \<Rightarrow> loopState" where
  "vertexLoop buffers textureId body 0 s = s"
| "vertexLoop buffers textureId body (Suc n) s =
     vertexLoop buffers textureId body n (execBody buffers textureId body s)"

text \<open>
  How often \<^verbatim>\<open>for (let vertexIndex = 0; vertexIndex < vertexCount; vertexIndex++)\<close> runs
  its body; \<open>None\<close> when it never ends. A length divided by zero is \<^verbatim>\<open>Infinity\<close>, or
  \<^verbatim>\<open>NaN\<close> for the length zero; an \<^verbatim>\<open>undefined\<close> length gives \<^verbatim>\<open>NaN\<close>; no number is
  less than \<^verbatim>\<open>NaN\<close>.
\<close>

definition vertexIterations :: "'o vertexCountExpression \<Rightarrow> 'o \<Rightarrow> srcval list \<Rightarrow> nat option"
  where
  "vertexIterations count targetObject buffers =
     (case count of
        CountProperty f \<Rightarrow> Some (nat \<lceil>f targetObject\<rceil>)
      | LengthOverSize n \<Rightarrow>
          (case sourceLength (buffers ! 0) of
             None \<Rightarrow> Some 0
           | Some l \<Rightarrow>
               if n = 0 then (if l = 0 then Some 0 else None)
               else Some (nat \<lceil>(of_nat l :: rat) / of_nat n\<rceil>)))"

text \<open>
  \<^verbatim>\<open>compositeIndices[iIndex++] = verticesBefore + indices[j]\<close> for every index of the
  object. A \<^verbatim>\<open>Uint16Array\<close> stores the integer part of the number modulo \<open>2 ^ 16\<close>,
  and 0 for \<^verbatim>\<open>NaN\<close> and \<^verbatim>\<open>Infinity\<close>, which is what a division by the vertex size
  zero yields.
\<close>

fun writeIndices :: "16 word list \<Rightarrow> nat \<Rightarrow> rat \<Rightarrow> nat \<Rightarrow> nat list \<Rightarrow> 16 word list \<times> nat"
  where
  "writeIndices compositeIndices iIndex' oldAIndex vertexSize' [] = (compositeIndices, iIndex')"
| "writeIndices compositeIndices iIndex' oldAIndex vertexSize' (index # rest) =
     writeIndices
       (compositeIndices
          [iIndex' := (if vertexSize' = 0 then 0
                       else word_of_int \<lfloor>oldAIndex / of_nat vertexSize' + of_nat index\<rfloor>)])
       (iIndex' + 1) oldAIndex vertexSize' rest"

datatype 'a outcome = Done 'a | Thrown error | Diverges

text \<open>
  A call of the generated function with \<^verbatim>\<open>this\<close> the packer, as \<^verbatim>\<open>pack\<close> makes it:
  the arguments are the packer's target buffers, \<^verbatim>\<open>_aIndex\<close> and \<^verbatim>\<open>_iIndex\<close>. Without
  a target attribute buffer the destructuring throws, and so does a write of an index
  without a target index buffer. The function writes \<^verbatim>\<open>this._aIndex\<close> and
  \<^verbatim>\<open>this._iIndex\<close> and the buffers in place.
\<close>

definition callPackerFunction ::
  "'o packerFunction \<Rightarrow> 'o GeometryPacker \<Rightarrow> 'o \<Rightarrow> textureIdArg \<Rightarrow> 'o GeometryPacker outcome"
  where
  "callPackerFunction f p targetObject textureId =
     (let buffers = map (\<lambda>src. src targetObject) (sources f) in
      case targetCompositeAttributeBuffer p of
        None \<Rightarrow> Thrown TypeError
      | Some compositeAttributes \<Rightarrow>
          (case vertexIterations (vertexCountOf f) targetObject buffers of
             None \<Rightarrow> Diverges
           | Some n \<Rightarrow>
               (let s = vertexLoop buffers textureId (loopBody f) n
                          \<lparr> views = compositeAttributes, aIndexVar = aIndex p,
                            adjustedAIndex = 0, offsets = replicate (length buffers) 0 \<rparr>;
                    oldAIndex = aIndex p;
                    p1 = p\<lparr> targetCompositeAttributeBuffer := Some (views s),
                            aIndex := aIndexVar s \<rparr>
                in case indexArrayOf f of
                     None \<Rightarrow> Done p1
                   | Some indices \<Rightarrow>
                       (case targetCompositeIndexBuffer p of
                          None \<Rightarrow>
                            if indices targetObject = [] then Done p1 else Thrown TypeError
                        | Some compositeIndices \<Rightarrow>
                            (let (compositeIndices', iIndex') =
                                   writeIndices compositeIndices (iIndex p) oldAIndex
                                     (vertexSizeConstant f) (indices targetObject)
                             in Done (p1\<lparr> targetCompositeIndexBuffer := Some compositeIndices',
                                          iIndex := iIndex' \<rparr>))))))"

text \<open>
  \<^verbatim>\<open>pack\<close> calls the packer function, which the getter compiles on first use; the
  redirects do not change, so every use compiles the same function.
\<close>

definition pack ::
  "'o GeometryPacker \<Rightarrow> 'o \<Rightarrow> textureIdArg \<Rightarrow> 'o GeometryPacker outcome" where
  "pack p targetObject textureId =
     (case compile p of
        Inl e \<Rightarrow> Thrown e
      | Inr f \<Rightarrow> callPackerFunction f p targetObject textureId)"

text \<open>\<^verbatim>\<open>pack\<close> for each object of a list in order, stopping at the first that does not return.\<close>

fun packAll ::
  "'o GeometryPacker \<Rightarrow> ('o \<times> textureIdArg) list \<Rightarrow> 'o GeometryPacker outcome" where
  "packAll p [] = Done p"
| "packAll p ((targetObject, textureId) # rest) =
     (case pack p targetObject textureId of
        Done p' \<Rightarrow> packAll p' rest
      | Thrown e \<Rightarrow> Thrown e
      | Diverges \<Rightarrow> Diverges)"

section \<open>Example display-objects and renderers\<close>

record displayObject =
  name :: string
  texture :: texval
  pipelineState :: pstate

definition state2d :: pstate where
  "state2d = \<lparr>data = 1, blendMode = 0, polygonOffset = 0\<rparr>"

definition additive2d :: pstate where
  "additive2d = \<lparr>data = 1, blendMode = 1, polygonOffset = 0\<rparr>"

definition sprite :: "string \<Rightarrow> nat \<Rightarrow> displayObject" where
  "sprite n u = \<lparr>name = n, texture = Texture u, pipelineState = state2d\<rparr>"

definition additiveSprite :: "string \<Rightarrow> nat \<Rightarrow> displayObject" where
  "additiveSprite n u = \<lparr>name = n, texture = Texture u, pipelineState = additive2d\<rparr>"

definition multiSprite :: "string \<Rightarrow> nat list \<Rightarrow> displayObject" where
  "multiSprite n us =
     \<lparr>name = n, texture = TextureArray (map Texture us), pipelineState = state2d\<rparr>"

text \<open>A renderer with one texture per object, right after \<^verbatim>\<open>contextChange\<close>.\<close>

definition spriteRenderer :: "nat \<Rightarrow> displayObject list \<Rightarrow> displayObject BatchRenderer" where
  "spriteRenderer limit objs =
     \<lparr> texturePerObject = 1, rendererTextureProperty = texture,
       stateFunction = pipelineState, BatchGeneratorClass = newBatchGenerator,
       batchGenerator = newBatchGenerator 1 limit texture True,
       MAX_TEXTURES = limit, objectBuffer = objs, batchPool = [], batchCount = 0 \<rparr>"

text \<open>Two texture units; objects with the textures 1, 2, 3, 1.\<close>

definition greedyExample :: "displayObject BatchRenderer" where
  "greedyExample =
     spriteRenderer 2 [sprite ''a'' 1, sprite ''b'' 2, sprite ''c'' 3, sprite ''d'' 1]"

text \<open>
  A renderer for two textures per object as \<^verbatim>\<open>contextChange\<close> leaves it on a context
  with one texture unit, and one submitted object with two textures.
\<close>

definition legacy :: glEnv where
  "legacy = \<lparr>preferLegacy = True, maxTextureImageUnits = 16, spriteMaxTextures = 32\<rparr>"

definition pairRenderer :: "displayObject BatchRenderer" where
  "pairRenderer =
     \<lparr> texturePerObject = 2, rendererTextureProperty = texture,
       stateFunction = pipelineState, BatchGeneratorClass = newBatchGenerator,
       batchGenerator = newBatchGenerator 2 1 texture True,
       MAX_TEXTURES = 1, objectBuffer = [], batchPool = [], batchCount = 0 \<rparr>"

definition stuckExample :: "displayObject BatchRenderer" where
  "stuckExample = render (start pairRenderer) (multiSprite ''a'' [1, 2])"

text \<open>Two objects whose states have the same \<open>data\<close> and different blend modes.\<close>

definition blendExample :: "displayObject BatchRenderer" where
  "blendExample = spriteRenderer 2 [sprite ''a'' 1, additiveSprite ''b'' 1]"

text \<open>The stock generator for one texture per object and two texture units.\<close>

definition spriteGenerator :: "displayObject BatchGenerator" where
  "spriteGenerator = newBatchGenerator 1 2 texture True"

text \<open>A generator for two textures per object on a context with one texture unit.\<close>

definition legacyPairGenerator :: "displayObject BatchGenerator" where
  "legacyPairGenerator = newBatchGenerator 2 1 texture True"

text \<open>A generator for two textures per object and three units, holding one object.\<close>

definition pairGenerator :: "displayObject BatchGenerator" where
  "pairGenerator =
     snd (put (newBatchGenerator 2 3 texture True) (multiSprite ''a'' [1, 2]) state2d)"

text \<open>A generator with texture reduction disabled and one texture unit.\<close>

definition plainGenerator :: "displayObject BatchGenerator" where
  "plainGenerator = newBatchGenerator 1 1 texture False"

definition glDefault :: glEnv where
  "glDefault = \<lparr>preferLegacy = False, maxTextureImageUnits = 16, spriteMaxTextures = 32\<rparr>"

text \<open>Objects with a vertex array of two coordinates per vertex, and an index array.\<close>

record mesh =
  vertices :: "rat list"
  indices :: "nat list"

definition aVertex :: "mesh AttributeRedirect" where
  "aVertex = \<lparr>source = (\<lambda>m. Elements (vertices m)), type = Float32, size' = Size 2\<rparr>"

text \<open>The layout with the one attribute and no texture, without indices.\<close>

definition plainPacker :: "mesh GeometryPacker" where
  "plainPacker = newGeometryPacker [aVertex] None None 0"

definition twoVertices :: mesh where
  "twoVertices = \<lparr>vertices = [1, 2, 3, 4], indices = []\<rparr>"

text \<open>The layout with the one attribute and one texture id per vertex, with indices.\<close>

definition texturedPacker :: "mesh GeometryPacker" where
  "texturedPacker = newGeometryPacker [aVertex] (Some indices) None 1"

definition triangleA :: mesh where
  "triangleA = \<lparr>vertices = [0, 0, 1, 0, 0, 1], indices = [0, 1, 2]\<rparr>"

definition quadB :: mesh where
  "quadB = \<lparr>vertices = [0, 0, 1, 0, 1, 1, 0, 1], indices = [0, 1, 2, 3, 0, 2]\<rparr>"

text \<open>The composite index buffer after a packing, up to the index cursor.\<close>

definition packedIndices :: "'o GeometryPacker outcome \<Rightarrow> 16 word list option" where
  "packedIndices result =
     (case result of
        Done p \<Rightarrow> map_option (take (iIndex p)) (targetCompositeIndexBuffer p)
      | Thrown e \<Rightarrow> None
      | Diverges \<Rightarrow> None)"

text \<open>The first \<open>n\<close> cells of \<^verbatim>\<open>float32View\<close> after a packing, and the attribute cursor.\<close>

definition packedFloats :: "nat \<Rightarrow> 'o GeometryPacker outcome \<Rightarrow> number list option" where
  "packedFloats n result =
     (case result of
        Done p \<Rightarrow> map_option (\<lambda>buffer. take n (buffer Float32)) (targetCompositeAttributeBuffer p)
      | Thrown e \<Rightarrow> None
      | Diverges \<Rightarrow> None)"

definition packedCursor :: "'o GeometryPacker outcome \<Rightarrow> rat option" where
  "packedCursor result =
     (case result of Done p \<Rightarrow> Some (aIndex p) | Thrown e \<Rightarrow> None | Diverges \<Rightarrow> None)"

text \<open>
  The body that \<^verbatim>\<open>compile\<close> generates for the layout of \<open>texturedPacker\<close>, and the
  packers with that layout.
\<close>

definition texturedBody :: "stmt list" where
  "texturedBody =
     [SetAdjusted 4, CopyElement Float32 0, CopyElement Float32 0, TextureAtAdjusted]"

definition texturedLayout :: "mesh GeometryPacker \<Rightarrow> bool" where
  "texturedLayout p \<longleftrightarrow>
     attributeRedirects p = [aVertex] \<and> indexProperty p = Some indices \<and>
     vertexCountProperty p = None \<and> vertexSize p = 12 \<and> packerTexturePerObject p = 1"

section \<open>What put and finalize change\<close>

lemma registerTextures_frame:
  "gen_batchBuffer (registerTextures g ts) = gen_batchBuffer g \<and>
   gen_state (registerTextures g ts) = gen_state g \<and>
   textureIncrement (registerTextures g ts) = textureIncrement g \<and>
   textureLimit (registerTextures g ts) = textureLimit g \<and>
   textureProperty (registerTextures g ts) = textureProperty g \<and>
   enableTextureReduction (registerTextures g ts) = enableTextureReduction g \<and>
   putTexture (registerTextures g ts) = putTexture g \<and>
   onPut (registerTextures g ts) = onPut g"
  by (induction ts arbitrary: g) (simp_all add: registerTexture_def)

lemma callPutTexture_frame:
  assumes "callPutTexture g t = (ok, g')"
  shows "gen_batchBuffer g' = gen_batchBuffer g \<and>
   gen_state g' = gen_state g \<and>
   textureIncrement g' = textureIncrement g \<and>
   textureLimit g' = textureLimit g \<and>
   textureProperty g' = textureProperty g \<and>
   enableTextureReduction g' = enableTextureReduction g \<and>
   putTexture g' = putTexture g \<and>
   onPut g' = onPut g"
  using assms
  by (auto simp: callPutTexture_def putOnlyTexture_def putTextureArray_def
      putTextureWithoutReduction_def putTextureArrayWithoutReduction_def Let_def
      registerTexture_def registerTextures_frame
      split: putTextureRoutine.splits if_splits)

lemma callPutTexture_refused: "callPutTexture g t = (False, g') \<Longrightarrow> g' = g"
  by (auto simp: callPutTexture_def putOnlyTexture_def putTextureArray_def
      putTextureWithoutReduction_def putTextureArrayWithoutReduction_def Let_def
      split: putTextureRoutine.splits if_splits)

lemma putAdmit_frame:
  assumes "putAdmit g x = (ok, g')"
  shows "gen_batchBuffer g' = gen_batchBuffer g @ (if ok then [x] else []) \<and>
   gen_state g' = gen_state g \<and>
   textureIncrement g' = textureIncrement g \<and>
   textureLimit g' = textureLimit g \<and>
   textureProperty g' = textureProperty g \<and>
   enableTextureReduction g' = enableTextureReduction g \<and>
   putTexture g' = putTexture g \<and>
   onPut g' = onPut g"
  using assms
  by (auto simp: putAdmit_def split: if_splits prod.splits bool.splits
      dest!: callPutTexture_frame)

lemma put_frame:
  assumes "put g x st = (ok, g')"
  shows "gen_batchBuffer g' = gen_batchBuffer g @ (if ok then [x] else []) \<and>
   textureIncrement g' = textureIncrement g \<and>
   textureLimit g' = textureLimit g \<and>
   textureProperty g' = textureProperty g \<and>
   enableTextureReduction g' = enableTextureReduction g \<and>
   putTexture g' = putTexture g \<and>
   onPut g' = onPut g"
  using assms
  by (auto simp: put_def split: option.splits if_splits dest!: putAdmit_frame)

lemma put_gen_state:
  assumes "put g x st = (ok, g')"
  shows "gen_state g' = (case gen_state g of None \<Rightarrow> Some st | Some s \<Rightarrow> Some s)"
    and "ok \<Longrightarrow> gen_state g = Some s \<Longrightarrow> data st = data s"
  using assms
  by (auto simp: put_def split: option.splits if_splits dest!: putAdmit_frame)

lemma finalize_cleared: "snd (finalize g b) = cleared g"
  by (simp add: finalize_def cleared_def)

lemma cleared_put: "put g x st = (ok, g') \<Longrightarrow> cleared g' = cleared g"
  apply (frule put_frame)
  apply (rule BatchGenerator.equality)
             apply (simp_all add: cleared_def)
  done

lemma idle_cleared: "idle (cleared g)"
  by (simp add: idle_def cleared_def)

lemma cleared_idem: "cleared (cleared g) = cleared g"
  by (simp add: cleared_def)

lemma admissible_cleared: "admissible (cleared g) x = admissible g x"
  by (simp add: admissible_def cleared_def textureRequirement_def
      split: putTextureRoutine.splits)

lemma idle_fields:
  assumes "idle g"
  shows "gen_state g = None \<and> gen_batchBuffer g = [] \<and> gen_textureBuffer g = Map.empty \<and>
     textureBufferLength g = 0 \<and> textureIndexedBuffer g = [] \<and> textureIndexMap g = Map.empty"
proof -
  have "gen_state (cleared g) = None \<and> gen_batchBuffer (cleared g) = [] \<and>
     gen_textureBuffer (cleared g) = Map.empty \<and> textureBufferLength (cleared g) = 0 \<and>
     textureIndexedBuffer (cleared g) = [] \<and> textureIndexMap (cleared g) = Map.empty"
    by (simp add: cleared_def)
  with assms show ?thesis by (simp add: idle_def)
qed

lemma deltaBufferLength_empty:
  "gen_textureBuffer g = Map.empty \<Longrightarrow> deltaBufferLength g ts = length ts"
  by (induction ts) simp_all

lemma lengthOf_elems: "lengthOf t = Some n \<Longrightarrow> n = length (elems t)"
  by (cases t) simp_all

lemma lengthOf_None_elems: "lengthOf t = None \<Longrightarrow> elems t = []"
  by (cases t) simp_all

lemma put_idle_admissible:
  assumes "idle g"
  shows "fst (put g x st) = admissible g x"
  using idle_fields [OF assms]
  by (auto simp: put_def putAdmit_def callPutTexture_def putOnlyTexture_def putTextureArray_def
      putTextureWithoutReduction_def putTextureArrayWithoutReduction_def Let_def admissible_def
      textureRequirement_def deltaBufferLength_empty
      lengthOf_None_elems
      split: putTextureRoutine.splits option.splits prod.splits dest: lengthOf_elems)

lemma putAll_snoc: "putAll g sf (xs @ [x]) = snd (put (putAll g sf xs) x (sf x))"
  by (induction xs arbitrary: g) simp_all

section \<open>The steps of the batching loop\<close>

lemma finalizeNewBatch_fields:
  "objectBuffer (finalizeNewBatch r batchStart) = objectBuffer r"
  "stateFunction (finalizeNewBatch r batchStart) = stateFunction r"
  "batchGenerator (finalizeNewBatch r batchStart) = cleared (batchGenerator r)"
  by (auto simp: finalizeNewBatch_def newBatch_def finalize_def cleared_def Let_def
      split: prod.splits if_splits)

lemma finalizeNewBatch_batches:
  assumes "batchCount r \<le> length (batchPool r)"
  shows "\<exists>b. batches (finalizeNewBatch r batchStart) = batches r @ [b] \<and>
             batchBuffer b = gen_batchBuffer (batchGenerator r) \<and>
             state b = gen_state (batchGenerator r) \<and>
             geometryOffset b = batchStart \<and>
             textureBuffer b = Some (textureIndexedBuffer (batchGenerator r)) \<and>
             uidMap b = (if enableTextureReduction (batchGenerator r)
                         then Some (textureIndexMap (batchGenerator r)) else None)"
    and "batchCount (finalizeNewBatch r batchStart)
           \<le> length (batchPool (finalizeNewBatch r batchStart))"
  using assms
  by (auto simp: finalizeNewBatch_def newBatch_def finalize_def Let_def batches_def reset_def
      newBatchObject_def take_Suc_conv_app_nth
      split: prod.splits if_splits)

text \<open>
  An invariant rule for the loop: what holds before it, and is kept by a step that
  accepts and by a step that refuses, holds when the loop returns.
\<close>

lemma flushLoop_rule:
  assumes run: "flushLoop fuel r batchStart i = Some (r', batchStart')"
    and init: "P r batchStart i"
    and accept: "\<And>r batchStart i g. P r batchStart i \<Longrightarrow> i < length (objectBuffer r) \<Longrightarrow>
        put (batchGenerator r) (objectBuffer r ! i) (stateFunction r (objectBuffer r ! i))
          = (True, g) \<Longrightarrow>
        P (r\<lparr>batchGenerator := g\<rparr>) batchStart (i + 1)"
    and refuse: "\<And>r batchStart i g. P r batchStart i \<Longrightarrow> i < length (objectBuffer r) \<Longrightarrow>
        put (batchGenerator r) (objectBuffer r ! i) (stateFunction r (objectBuffer r ! i))
          = (False, g) \<Longrightarrow>
        P (finalizeNewBatch (r\<lparr>batchGenerator := g\<rparr>) batchStart) i i"
  shows "\<exists>i'. P r' batchStart' i' \<and> length (objectBuffer r') \<le> i'"
  using run init
proof (induction fuel arbitrary: r batchStart i)
  case 0
  then show ?case by simp
next
  case (Suc fuel)
  show ?case
  proof (cases "i < length (objectBuffer r)")
    case False
    with Suc.prems show ?thesis by auto
  next
    case inside: True
    obtain ok g where p: "put (batchGenerator r) (objectBuffer r ! i)
        (stateFunction r (objectBuffer r ! i)) = (ok, g)"
      by (cases "put (batchGenerator r) (objectBuffer r ! i)
        (stateFunction r (objectBuffer r ! i))") auto
    show ?thesis
    proof (cases ok)
      case True
      with p inside Suc.prems
      have "flushLoop fuel (r\<lparr>batchGenerator := g\<rparr>) batchStart (i + 1)
              = Some (r', batchStart')"
        by (simp add: Let_def)
      moreover have "P (r\<lparr>batchGenerator := g\<rparr>) batchStart (i + 1)"
        using accept [OF Suc.prems(2) inside] p True by simp
      ultimately show ?thesis by (rule Suc.IH)
    next
      case False
      with p inside Suc.prems
      have "flushLoop fuel (finalizeNewBatch (r\<lparr>batchGenerator := g\<rparr>) batchStart) i i
              = Some (r', batchStart')"
        by (simp add: Let_def)
      moreover have "P (finalizeNewBatch (r\<lparr>batchGenerator := g\<rparr>) batchStart) i i"
        using refuse [OF Suc.prems(2) inside] p False by simp
      ultimately show ?thesis by (rule Suc.IH)
    qed
  qed
qed

lemma orderInv_accept:
  assumes "orderInv buf r batchStart i" "i < length (objectBuffer r)"
    "put (batchGenerator r) (objectBuffer r ! i) st = (True, g)"
  shows "orderInv buf (r\<lparr>batchGenerator := g\<rparr>) batchStart (i + 1)"
  using assms
  by (auto simp: orderInv_def batches_def take_Suc_conv_app_nth dest!: put_frame)

lemma orderInv_refuse:
  assumes "orderInv buf r batchStart i" "i < length (objectBuffer r)"
    "put (batchGenerator r) (objectBuffer r ! i) st = (False, g)"
  shows "orderInv buf (finalizeNewBatch (r\<lparr>batchGenerator := g\<rparr>) batchStart) i i"
proof -
  let ?r = "r\<lparr>batchGenerator := g\<rparr>"
  have c: "batchCount ?r \<le> length (batchPool ?r)" using assms(1) by (simp add: orderInv_def)
  from finalizeNewBatch_batches [OF c, of batchStart] assms(1,2) put_frame [OF assms(3)]
  show ?thesis
    by (auto simp: orderInv_def batches_def finalizeNewBatch_fields cleared_def)
qed

lemma flushLoop_order:
  assumes "flushLoop fuel r batchStart i = Some (r', batchStart')"
    and "orderInv buf r batchStart i"
  shows "orderInv buf r' batchStart' (length buf)"
proof -
  have "\<exists>i'. orderInv buf r' batchStart' i' \<and> length (objectBuffer r') \<le> i'"
    by (rule flushLoop_rule [OF assms(1), where P = "orderInv buf"])
      (rule assms(2), erule (2) orderInv_accept, erule (2) orderInv_refuse)
  then show ?thesis by (auto simp: orderInv_def)
qed

section \<open>Order of the members when the batching stage returns\<close>

text \<open>
  Whenever the batching stage returns, having started with no members in the accumulator,
  the member lists of its batches, concatenated, are the buffered objects.
\<close>

lemma flush_order_if_returns:
  assumes "flush fuel r = Some r'" and "gen_batchBuffer (batchGenerator r) = []"
  shows "concat (map batchBuffer (batches r')) = objectBuffer r"
proof -
  from assms(1) obtain r1 batchStart where
    l: "flushLoop fuel (r\<lparr>batchCount := 0\<rparr>) 0 0 = Some (r1, batchStart)" and
    r': "r' = (if gen_batchBuffer (batchGenerator r1) \<noteq> []
               then finalizeNewBatch r1 batchStart else r1)"
    by (auto simp: flush_def split: option.splits)
  have "orderInv (objectBuffer r) (r\<lparr>batchCount := 0\<rparr>) 0 0"
    using assms(2) by (simp add: orderInv_def batches_def)
  from flushLoop_order [OF l this]
  have inv: "orderInv (objectBuffer r) r1 batchStart (length (objectBuffer r))" .
  show ?thesis
  proof (cases "gen_batchBuffer (batchGenerator r1) = []")
    case True
    with inv r' show ?thesis by (simp add: orderInv_def)
  next
    case False
    from inv have "batchCount r1 \<le> length (batchPool r1)" by (simp add: orderInv_def)
    from finalizeNewBatch_batches(1) [OF this, of batchStart] inv False r'
    show ?thesis by (auto simp: orderInv_def)
  qed
qed

lemma render_all:
  "objectBuffer (foldl render r xs) = objectBuffer r @ xs \<and>
   batchGenerator (foldl render r xs) = batchGenerator r"
  by (induction xs arbitrary: r) (simp_all add: render_def)

text \<open>
  When an idle accumulator refuses the object the loop is at, the loop never leaves it:
  each round finalizes an empty batch and offers the same object to the cleared
  accumulator again.
\<close>

lemma flushLoop_stuck:
  assumes "idle (batchGenerator r)" and "i < length (objectBuffer r)"
    and "\<not> admissible (batchGenerator r) (objectBuffer r ! i)"
  shows "flushLoop fuel r batchStart i = None"
  using assms
proof (induction fuel arbitrary: r batchStart)
  case 0
  show ?case by simp
next
  case (Suc fuel)
  let ?x = "objectBuffer r ! i"
  obtain ok g where p: "put (batchGenerator r) ?x (stateFunction r ?x) = (ok, g)"
    by (cases "put (batchGenerator r) ?x (stateFunction r ?x)") auto
  have "\<not> ok"
    using put_idle_admissible [OF Suc.prems(1), of ?x "stateFunction r ?x"] Suc.prems(3) p
    by simp
  let ?r = "finalizeNewBatch (r\<lparr>batchGenerator := g\<rparr>) batchStart"
  have adm: "admissible (cleared g) y = admissible (batchGenerator r) y" for y
    using admissible_cleared [of g y] admissible_cleared [of "batchGenerator r" y]
      cleared_put [OF p] by simp
  have "flushLoop fuel ?r i i = None"
  proof (rule Suc.IH)
    show "idle (batchGenerator ?r)" by (simp add: finalizeNewBatch_fields idle_cleared)
    show "i < length (objectBuffer ?r)"
      using Suc.prems(2) by (simp add: finalizeNewBatch_fields)
    show "\<not> admissible (batchGenerator ?r) (objectBuffer ?r ! i)"
      using Suc.prems(3) by (simp add: finalizeNewBatch_fields adm)
  qed
  with p \<open>\<not> ok\<close> Suc.prems(2) show ?case by (simp add: Let_def)
qed

section \<open>Termination of the batching loop and greedy boundaries\<close>

lemma flushLoop_terminates:
  assumes "\<forall>x \<in> set (objectBuffer r). admissible (batchGenerator r) x"
    and "2 * (length (objectBuffer r) - i)
           + (if idle (batchGenerator r) \<and> i < length (objectBuffer r) then 0 else 1) \<le> fuel"
  shows "flushLoop fuel r batchStart i \<noteq> None"
  using assms
proof (induction fuel arbitrary: r batchStart i)
  case 0
  then show ?case by (simp split: if_splits)
next
  case (Suc fuel)
  let ?n = "length (objectBuffer r)"
  show ?case
  proof (cases "i < ?n")
    case False
    then show ?thesis by simp
  next
    case inside: True
    let ?x = "objectBuffer r ! i"
    obtain ok g where p: "put (batchGenerator r) ?x (stateFunction r ?x) = (ok, g)"
      by (cases "put (batchGenerator r) ?x (stateFunction r ?x)") auto
    have adm: "admissible (batchGenerator r) ?x" using Suc.prems(1) inside by simp
    have cl: "cleared g = cleared (batchGenerator r)" using p by (rule cleared_put)
    have adm_g: "admissible g y = admissible (batchGenerator r) y" for y
      using admissible_cleared [of g y] admissible_cleared [of "batchGenerator r" y] cl by simp
    show ?thesis
    proof (cases ok)
      case True
      let ?r = "r\<lparr>batchGenerator := g\<rparr>"
      have "flushLoop fuel ?r batchStart (i + 1) \<noteq> None"
      proof (rule Suc.IH)
        show "\<forall>x\<in>set (objectBuffer ?r). admissible (batchGenerator ?r) x"
          using Suc.prems(1) adm_g by simp
        show "2 * (length (objectBuffer ?r) - (i + 1)) +
          (if idle (batchGenerator ?r) \<and> i + 1 < length (objectBuffer ?r) then 0 else 1)
            \<le> fuel"
          using Suc.prems(2) inside by (simp split: if_splits; arith)
      qed
      with p True inside show ?thesis by (simp add: Let_def)
    next
      case False
      have nidle: "\<not> idle (batchGenerator r)"
        using put_idle_admissible [of "batchGenerator r" ?x "stateFunction r ?x"] adm p False
        by auto
      let ?r = "finalizeNewBatch (r\<lparr>batchGenerator := g\<rparr>) batchStart"
      have "flushLoop fuel ?r i i \<noteq> None"
      proof (rule Suc.IH)
        show "\<forall>x\<in>set (objectBuffer ?r). admissible (batchGenerator ?r) x"
          using Suc.prems(1) adm_g
          by (simp add: finalizeNewBatch_fields admissible_cleared)
        show "2 * (length (objectBuffer ?r) - i) +
          (if idle (batchGenerator ?r) \<and> i < length (objectBuffer ?r) then 0 else 1) \<le> fuel"
          using Suc.prems(2) inside nidle
          by (simp add: finalizeNewBatch_fields idle_cleared)
      qed
      with p False inside show ?thesis by (simp add: Let_def)
    qed
  qed
qed

lemma boundariesRefused_last:
  assumes "boundariesRefused g sf (segs @ [bb @ w])" "bb \<noteq> []"
  shows "boundariesRefused g sf (segs @ [bb])"
  unfolding boundariesRefused_def
proof (intro allI impI)
  fix k assume k: "Suc k < length (segs @ [bb])"
  then have k': "Suc k < length (segs @ [bb @ w])" by simp
  have 1: "(segs @ [bb]) ! k = (segs @ [bb @ w]) ! k" using k by (simp add: nth_append)
  have 2: "hd ((segs @ [bb]) ! Suc k) = hd ((segs @ [bb @ w]) ! Suc k)"
    using k assms(2) by (simp add: nth_append)
  from assms(1) k'
  show "\<not> fst (put (putAll g sf ((segs @ [bb]) ! k)) (hd ((segs @ [bb]) ! Suc k))
      (sf (hd ((segs @ [bb]) ! Suc k))))"
    unfolding boundariesRefused_def 1 2 by blast
qed

lemma boundariesRefused_snoc:
  assumes "boundariesRefused g sf (segs @ [bb])"
    and "\<not> fst (put (putAll g sf bb) (hd v) (sf (hd v)))"
  shows "boundariesRefused g sf ((segs @ [bb]) @ [v])"
  unfolding boundariesRefused_def
proof (intro allI impI)
  fix k assume k: "Suc k < length ((segs @ [bb]) @ [v])"
  show "\<not> fst (put (putAll g sf (((segs @ [bb]) @ [v]) ! k))
      (hd (((segs @ [bb]) @ [v]) ! Suc k)) (sf (hd (((segs @ [bb]) @ [v]) ! Suc k))))"
  proof (cases "Suc k < length (segs @ [bb])")
    case True
    then have "((segs @ [bb]) @ [v]) ! k = (segs @ [bb]) ! k"
      "((segs @ [bb]) @ [v]) ! Suc k = (segs @ [bb]) ! Suc k"
      by (simp_all add: nth_append)
    with assms(1) True show ?thesis unfolding boundariesRefused_def by metis
  next
    case False
    with k have "k = length segs" by simp
    then have "((segs @ [bb]) @ [v]) ! k = bb" "((segs @ [bb]) @ [v]) ! Suc k = v"
      by (simp_all add: nth_append)
    with assms(2) show ?thesis by simp
  qed
qed

lemma boundariesRefused_butlast:
  "boundariesRefused g sf (segs @ [v]) \<Longrightarrow> boundariesRefused g sf segs"
  unfolding boundariesRefused_def
  by (metis Suc_lessD length_append_singleton nth_append less_Suc_eq)

lemma greedyInv_accept:
  assumes inv: "greedyInv buf sf g0 r batchStart i"
    and inside: "i < length (objectBuffer r)"
    and p: "put (batchGenerator r) (objectBuffer r ! i) (stateFunction r (objectBuffer r ! i))
              = (True, g)"
  shows "greedyInv buf sf g0 (r\<lparr>batchGenerator := g\<rparr>) batchStart (i + 1)"
proof -
  let ?r = "r\<lparr>batchGenerator := g\<rparr>"
  from inv have o: "orderInv buf r batchStart i" and buf: "objectBuffer r = buf"
    by (simp_all add: greedyInv_def orderInv_def)
  have o': "orderInv buf ?r batchStart (i + 1)"
    using o inside p by (rule orderInv_accept)
  have bb: "gen_batchBuffer g = gen_batchBuffer (batchGenerator r) @ [buf ! i]"
    using put_frame [OF p] buf by simp
  have "putAll g0 sf (gen_batchBuffer g) = g"
    using inv p bb buf by (simp add: putAll_snoc greedyInv_def)
  moreover have "gen_batchBuffer g @ drop (i + 1) buf
      = gen_batchBuffer (batchGenerator r) @ drop i buf"
    using bb inside buf by (simp add: Cons_nth_drop_Suc)
  ultimately show ?thesis
    using inv o' cleared_put [OF p] by (simp add: greedyInv_def batches_def)
qed

lemma greedyInv_refuse:
  assumes inv: "greedyInv buf sf g0 r batchStart i"
    and inside: "i < length (objectBuffer r)"
    and p: "put (batchGenerator r) (objectBuffer r ! i) (stateFunction r (objectBuffer r ! i))
              = (False, g)"
    and adm: "\<forall>x \<in> set buf. admissible g0 x"
  shows "greedyInv buf sf g0 (finalizeNewBatch (r\<lparr>batchGenerator := g\<rparr>) batchStart) i i"
proof -
  let ?r = "r\<lparr>batchGenerator := g\<rparr>"
  let ?bb = "gen_batchBuffer (batchGenerator r)"
  from inv have o: "orderInv buf r batchStart i" and buf: "objectBuffer r = buf"
    and sf: "stateFunction r = sf"
    and g0: "cleared (batchGenerator r) = g0"
    and pa: "batchGenerator r = putAll g0 sf ?bb"
    and ref: "boundariesRefused g0 sf (map batchBuffer (batches r) @ [?bb @ drop i buf])"
    and ne: "\<forall>b \<in> set (batches r). batchBuffer b \<noteq> []"
    by (simp_all add: greedyInv_def orderInv_def)
  have c: "batchCount ?r \<le> length (batchPool ?r)" using o by (simp add: orderInv_def)
  have bbg: "gen_batchBuffer g = ?bb" using put_frame [OF p] by simp
  from finalizeNewBatch_batches(1) [OF c, of batchStart] obtain b where
    b: "batches (finalizeNewBatch ?r batchStart) = batches ?r @ [b]"
      "batchBuffer b = gen_batchBuffer g"
    by auto
  have bs': "batches ?r = batches r" by (simp add: batches_def)
  have o': "orderInv buf (finalizeNewBatch ?r batchStart) i i"
    using o inside p by (rule orderInv_refuse)
  have x: "buf ! i \<in> set buf" using inside buf by simp
  have idle0: "idle g0" using g0 idle_cleared by auto
  have nonempty: "?bb \<noteq> []"
  proof
    assume "?bb = []"
    then have "batchGenerator r = g0" using pa by simp
    then have "fst (put (batchGenerator r) (buf ! i) (sf (buf ! i)))"
      using put_idle_admissible [OF idle0] adm x by simp
    with p buf sf show False by simp
  qed
  have gen': "batchGenerator (finalizeNewBatch ?r batchStart) = g0"
    using cleared_put [OF p] g0 by (simp add: finalizeNewBatch_fields)
  have e: "gen_batchBuffer g0 = []" using idle_fields [OF idle0] by simp
  have c0: "cleared g0 = g0" using idle0 by (simp add: idle_def)
  have hd: "hd (drop i buf) = buf ! i" using inside buf by (simp add: hd_drop_conv_nth)
  have "boundariesRefused g0 sf (map batchBuffer (batches r) @ [?bb])"
    using ref nonempty by (rule boundariesRefused_last)
  moreover have "\<not> fst (put (putAll g0 sf ?bb) (hd (drop i buf)) (sf (hd (drop i buf))))"
    using p pa buf sf hd by simp
  ultimately have
    "boundariesRefused g0 sf ((map batchBuffer (batches r) @ [?bb]) @ [drop i buf])"
    by (rule boundariesRefused_snoc)
  then show ?thesis
    using o' gen' e b bs' bbg ne nonempty sf c0
    by (simp add: greedyInv_def finalizeNewBatch_fields)
qed

lemma flushLoop_greedy:
  assumes run: "flushLoop fuel r batchStart i = Some (r', batchStart')"
    and inv: "greedyInv buf sf g0 r batchStart i"
    and adm: "\<forall>x \<in> set buf. admissible g0 x"
  shows "greedyInv buf sf g0 r' batchStart' (length buf)"
proof -
  have "\<exists>i'. greedyInv buf sf g0 r' batchStart' i' \<and> length (objectBuffer r') \<le> i'"
    by (rule flushLoop_rule [OF run, where P = "greedyInv buf sf g0"])
      (rule inv, erule (2) greedyInv_accept, erule (2) greedyInv_refuse, rule adm)
  then show ?thesis by (auto simp: greedyInv_def orderInv_def)
qed

text \<open>
  C3. When the accumulator is idle at the start and every buffered object is admissible
  into an empty accumulator (the admission method accepts it and its texture requirement
  is at most the texture limit), the batching loop of flush returns within
  \<open>2 * length + 1\<close> tests of its condition. The produced batches, concatenated, are the
  buffered objects (each object is in exactly one batch), no batch is empty, and the
  first member of every later batch is an object that \<^verbatim>\<open>put\<close> refused on the
  accumulator holding the batch before it.
\<close>

theorem flush_terminates_greedy:
  assumes idle: "idle (batchGenerator r)"
    and adm: "\<forall>x \<in> set (objectBuffer r). admissible (batchGenerator r) x"
    and fuel: "2 * length (objectBuffer r) + 1 \<le> fuel"
  shows "\<exists>r'. flush fuel r = Some r' \<and>
           concat (map batchBuffer (batches r')) = objectBuffer r \<and>
           (\<forall>b \<in> set (batches r'). batchBuffer b \<noteq> []) \<and>
           boundariesRefused (batchGenerator r) (stateFunction r)
             (map batchBuffer (batches r'))"
proof -
  let ?r0 = "r\<lparr>batchCount := 0\<rparr>"
  let ?g0 = "batchGenerator r"
  let ?buf = "objectBuffer r"
  let ?sf = "stateFunction r"
  have "flushLoop fuel ?r0 0 0 \<noteq> None"
    by (rule flushLoop_terminates) (use adm fuel in \<open>auto split: if_splits\<close>)
  then obtain r1 batchStart where l: "flushLoop fuel ?r0 0 0 = Some (r1, batchStart)"
    by auto
  have cl: "cleared ?g0 = ?g0" using idle by (simp add: idle_def)
  have e: "gen_batchBuffer ?g0 = []" using idle_fields [OF idle] by simp
  have "greedyInv ?buf ?sf ?g0 ?r0 0 0"
    using cl e by (simp add: greedyInv_def orderInv_def batches_def boundariesRefused_def)
  from flushLoop_greedy [OF l this adm]
  have inv: "greedyInv ?buf ?sf ?g0 r1 batchStart (length ?buf)" .
  let ?bb = "gen_batchBuffer (batchGenerator r1)"
  show ?thesis
  proof (cases "?bb = []")
    case True
    then have "flush fuel r = Some r1" using l by (simp add: flush_def)
    moreover have "boundariesRefused ?g0 ?sf (map batchBuffer (batches r1))"
      using inv True boundariesRefused_butlast by (fastforce simp: greedyInv_def)
    ultimately show ?thesis using inv True by (simp add: greedyInv_def orderInv_def)
  next
    case False
    let ?r' = "finalizeNewBatch r1 batchStart"
    have f: "flush fuel r = Some ?r'" using l False by (simp add: flush_def)
    from inv have c: "batchCount r1 \<le> length (batchPool r1)"
      by (simp add: greedyInv_def orderInv_def)
    from finalizeNewBatch_batches(1) [OF c, of batchStart] obtain b where
      b: "batches ?r' = batches r1 @ [b]" "batchBuffer b = ?bb" by auto
    show ?thesis using f inv b False by (simp add: greedyInv_def orderInv_def)
  qed
qed

theorem flush_terminates_greedy_witness:
  "idle (batchGenerator greedyExample) \<and>
   list_all (admissible (batchGenerator greedyExample)) (objectBuffer greedyExample) \<and>
   (\<exists>r'. flush 9 greedyExample = Some r' \<and>
      concat (map batchBuffer (batches r')) = objectBuffer greedyExample \<and>
      (\<forall>b \<in> set (batches r'). batchBuffer b \<noteq> []) \<and>
      boundariesRefused (batchGenerator greedyExample) (stateFunction greedyExample)
        (map batchBuffer (batches r')))"
proof -
  have i: "idle (batchGenerator greedyExample)"
    by (simp add: idle_def cleared_def greedyExample_def spriteRenderer_def
        newBatchGenerator_def)
  have a: "\<forall>x \<in> set (objectBuffer greedyExample). admissible (batchGenerator greedyExample) x"
    by (simp add: admissible_def textureRequirement_def greedyExample_def spriteRenderer_def
        newBatchGenerator_def)
  have f: "2 * length (objectBuffer greedyExample) + 1 \<le> 9"
    by (simp add: greedyExample_def spriteRenderer_def)
  from flush_terminates_greedy [OF i a f] i a show ?thesis
    by (simp add: list_all_iff)
qed

section \<open>Order preservation\<close>

lemma flush_returns:
  assumes "\<forall>x \<in> set (objectBuffer r). admissible (batchGenerator r) x"
    and "2 * length (objectBuffer r) + 1 \<le> fuel"
  shows "flush fuel r \<noteq> None"
proof -
  have "flushLoop fuel (r\<lparr>batchCount := 0\<rparr>) 0 0 \<noteq> None"
    by (rule flushLoop_terminates) (use assms in \<open>auto split: if_splits\<close>)
  then show ?thesis by (auto simp: flush_def)
qed

text \<open>
  C1, as the code has it. Let the objects of a list be submitted by \<^verbatim>\<open>render\<close> after
  \<^verbatim>\<open>start\<close> to a renderer whose accumulator is idle. Whenever the batching stage of the
  flush returns, the member lists of the batches it produced, concatenated in batch
  order, are exactly the submitted objects in submission order: every object occurs once,
  and the order across and within batches is kept. The batching stage does return, within
  \<open>2 * length + 1\<close> tests of the loop condition, when every submitted object is admissible
  into an empty accumulator.
\<close>

theorem flush_returns_in_order:
  assumes "idle (batchGenerator r)"
  shows "(\<forall>fuel r'. flush fuel (foldl render (start r) items) = Some r' \<longrightarrow>
            concat (map batchBuffer (batches r')) = items) \<and>
         ((\<forall>x \<in> set items. admissible (batchGenerator r) x) \<longrightarrow>
            (\<exists>r'. flush (2 * length items + 1) (foldl render (start r) items) = Some r' \<and>
                  concat (map batchBuffer (batches r')) = items))"
proof -
  let ?r = "foldl render (start r) items"
  have buf: "objectBuffer ?r = items" and gen: "batchGenerator ?r = batchGenerator r"
    using render_all [of "start r" items] by (simp_all add: start_def)
  have e: "gen_batchBuffer (batchGenerator ?r) = []"
    using idle_fields [OF assms] gen by simp
  have order: "concat (map batchBuffer (batches r')) = items"
    if "flush fuel ?r = Some r'" for fuel r'
    using flush_order_if_returns [OF that e] buf by simp
  have "\<exists>r'. flush (2 * length items + 1) ?r = Some r' \<and>
          concat (map batchBuffer (batches r')) = items"
    if "\<forall>x \<in> set items. admissible (batchGenerator r) x"
  proof -
    have "flush (2 * length items + 1) ?r \<noteq> None"
      by (rule flush_returns) (use that buf gen in simp_all)
    then obtain r' where "flush (2 * length items + 1) ?r = Some r'" by auto
    with order show ?thesis by blast
  qed
  with order show ?thesis by blast
qed

theorem flush_returns_in_order_witness:
  "flush 9 (foldl render (start (spriteRenderer 2 []))
            [sprite ''a'' 1, sprite ''b'' 2, sprite ''c'' 3, sprite ''d'' 1]) \<noteq> None \<and>
   concat (map batchBuffer (batches (the (flush 9
      (foldl render (start (spriteRenderer 2 []))
         [sprite ''a'' 1, sprite ''b'' 2, sprite ''c'' 3, sprite ''d'' 1])))))
     = [sprite ''a'' 1, sprite ''b'' 2, sprite ''c'' 3, sprite ''d'' 1]"
proof -
  let ?items = "[sprite ''a'' 1, sprite ''b'' 2, sprite ''c'' 3, sprite ''d'' 1]"
  have i: "idle (batchGenerator (spriteRenderer 2 []))"
    by (simp add: idle_def cleared_def spriteRenderer_def newBatchGenerator_def)
  have a: "\<forall>x \<in> set ?items. admissible (batchGenerator (spriteRenderer 2 [])) x"
    by (simp add: admissible_def textureRequirement_def spriteRenderer_def
        newBatchGenerator_def)
  from flush_returns_in_order [OF i, of ?items] a show ?thesis
    by auto
qed

text \<open>
  C1 as stated fails, since it speaks of every stream: a renderer for two textures per
  object is what \<^verbatim>\<open>contextChange\<close> installs on a context with one texture unit, and
  when an object with two distinct textures is submitted to it, the cleared accumulator
  refuses the object again and again. The batching stage returns for no amount of fuel,
  and the object is never placed in a batch.
\<close>

theorem flush_never_returns:
  "contextChange legacy pairRenderer = Inr pairRenderer \<and>
   objectBuffer stuckExample = [multiSprite ''a'' [1, 2]] \<and>
   (\<forall>fuel. flush fuel stuckExample = None)"
proof (intro conjI allI)
  show "contextChange legacy pairRenderer = Inr pairRenderer"
    by (simp add: contextChange_def legacy_def pairRenderer_def newBatchGenerator_def)
  show b: "objectBuffer stuckExample = [multiSprite ''a'' [1, 2]]"
    by (simp add: stuckExample_def render_def start_def)
  fix fuel
  let ?r = "stuckExample\<lparr>batchCount := 0\<rparr>"
  have g: "batchGenerator ?r = newBatchGenerator 2 1 texture True"
    by (simp add: stuckExample_def render_def start_def pairRenderer_def)
  have "flushLoop fuel ?r 0 0 = None"
  proof (rule flushLoop_stuck)
    show "idle (batchGenerator ?r)"
      unfolding g by (simp add: idle_def cleared_def newBatchGenerator_def)
    show "0 < length (objectBuffer ?r)" using b by simp
    show "\<not> admissible (batchGenerator ?r) (objectBuffer ?r ! 0)"
      unfolding g using b
      by (simp add: admissible_def textureRequirement_def newBatchGenerator_def
          multiSprite_def)
  qed
  then show "flush fuel stuckExample = None" by (simp add: flush_def)
qed

section \<open>Pipeline state of a batch\<close>

lemma stateInv_accept:
  assumes inv: "stateInv sf r batchStart i"
    and p: "put (batchGenerator r) x (stateFunction r x) = (True, g)"
  shows "stateInv sf (r\<lparr>batchGenerator := g\<rparr>) batchStart (i + 1)"
proof -
  from inv have sf: "stateFunction r = sf" by (simp add: stateInv_def)
  have bb: "gen_batchBuffer g = gen_batchBuffer (batchGenerator r) @ [x]"
    using put_frame [OF p] by simp
  have "\<exists>s. gen_state g = Some s \<and> data (sf y) = data s"
    if "y \<in> set (gen_batchBuffer g)" for y
  proof (cases "y \<in> set (gen_batchBuffer (batchGenerator r))")
    case True
    with inv obtain s where "gen_state (batchGenerator r) = Some s" "data (sf y) = data s"
      by (auto simp: stateInv_def)
    with put_gen_state(1) [OF p] show ?thesis by simp
  next
    case False
    with that bb have "y = x" by simp
    with put_gen_state [OF p] sf show ?thesis
      by (cases "gen_state (batchGenerator r)") auto
  qed
  with inv show ?thesis by (simp add: stateInv_def batches_def)
qed

lemma stateInv_refuse:
  assumes inv: "stateInv sf r batchStart i"
    and p: "put (batchGenerator r) x (stateFunction r x) = (False, g)"
  shows "stateInv sf (finalizeNewBatch (r\<lparr>batchGenerator := g\<rparr>) batchStart) i i"
proof -
  let ?r = "r\<lparr>batchGenerator := g\<rparr>"
  have c: "batchCount ?r \<le> length (batchPool ?r)" using inv by (simp add: stateInv_def)
  have bb: "gen_batchBuffer g = gen_batchBuffer (batchGenerator r)"
    using put_frame [OF p] by simp
  from finalizeNewBatch_batches [OF c, of batchStart] obtain b where
    b: "batches (finalizeNewBatch ?r batchStart) = batches r @ [b]"
      "batchBuffer b = gen_batchBuffer g" "state b = gen_state g"
    and c': "batchCount (finalizeNewBatch ?r batchStart)
               \<le> length (batchPool (finalizeNewBatch ?r batchStart))"
    by (auto simp: batches_def)
  have "\<exists>s. state b = Some s \<and> data (sf y) = data s" if "y \<in> set (batchBuffer b)" for y
  proof -
    from that b bb inv obtain s where
      "gen_state (batchGenerator r) = Some s" "data (sf y) = data s"
      by (auto simp: stateInv_def)
    with put_gen_state(1) [OF p] b show ?thesis by simp
  qed
  with inv b c' show ?thesis
    by (auto simp: stateInv_def finalizeNewBatch_fields cleared_def)
qed

lemma flushLoop_state:
  assumes run: "flushLoop fuel r batchStart i = Some (r', batchStart')"
    and inv: "stateInv sf r batchStart i"
  shows "\<exists>i'. stateInv sf r' batchStart' i'"
proof -
  have "\<exists>i'. stateInv sf r' batchStart' i' \<and> length (objectBuffer r') \<le> i'"
    by (rule flushLoop_rule [OF run, where P = "stateInv sf"])
      (rule inv, erule stateInv_accept, assumption, erule stateInv_refuse, assumption)
  then show ?thesis by blast
qed

text \<open>
  What the comparison in \<^verbatim>\<open>put\<close> does ensure: in every batch that a flush produces,
  each member's state has the same \<open>data\<close> bit field as the state recorded in the batch.
\<close>

lemma flush_batches_share_state_data:
  assumes "flush fuel r = Some r'" and "gen_batchBuffer (batchGenerator r) = []"
  shows "\<forall>b \<in> set (batches r'). \<forall>x \<in> set (batchBuffer b).
           \<exists>s. state b = Some s \<and> data (stateFunction r x) = data s"
proof -
  let ?sf = "stateFunction r"
  from assms(1) obtain r1 batchStart where
    l: "flushLoop fuel (r\<lparr>batchCount := 0\<rparr>) 0 0 = Some (r1, batchStart)" and
    r': "r' = (if gen_batchBuffer (batchGenerator r1) \<noteq> []
               then finalizeNewBatch r1 batchStart else r1)"
    by (auto simp: flush_def split: option.splits)
  have "stateInv ?sf (r\<lparr>batchCount := 0\<rparr>) 0 0"
    using assms(2) by (simp add: stateInv_def batches_def)
  from flushLoop_state [OF l this] obtain i' where inv: "stateInv ?sf r1 batchStart i'" ..
  show ?thesis
  proof (cases "gen_batchBuffer (batchGenerator r1) = []")
    case True
    with inv r' show ?thesis by (simp add: stateInv_def)
  next
    case False
    from inv have "batchCount r1 \<le> length (batchPool r1)" by (simp add: stateInv_def)
    from finalizeNewBatch_batches(1) [OF this, of batchStart] obtain b where
      b: "batches (finalizeNewBatch r1 batchStart) = batches r1 @ [b]"
        "batchBuffer b = gen_batchBuffer (batchGenerator r1)"
        "state b = gen_state (batchGenerator r1)"
      by auto
    with inv False r' show ?thesis by (auto simp: stateInv_def)
  qed
qed

text \<open>
  C4 fails on the code. \<^verbatim>\<open>put\<close> compares the \<open>data\<close> bit field of the supplied state
  with that of the recorded state and nothing else of the state, although the class
  comment says that the generator ensures that the WebGL states are equivalent, and the
  batch is drawn with one state. The two objects of the example have different pipeline
  states (they differ in blend mode); \<^verbatim>\<open>put\<close> accepts the second into the accumulator
  that holds the first, and the flush produces one batch with both, recorded with the
  state of the first.
\<close>

theorem batch_mixes_pipeline_states:
  "map_option (map batchBuffer \<circ> batches) (flush 5 blendExample)
     = Some [[sprite ''a'' 1, additiveSprite ''b'' 1]] \<and>
   map_option (map state \<circ> batches) (flush 5 blendExample) = Some [Some state2d] \<and>
   pipelineState (additiveSprite ''b'' 1) \<noteq> state2d \<and>
   fst (put (snd (put spriteGenerator (sprite ''a'' 1) state2d))
          (additiveSprite ''b'' 1) additive2d)"
  by code_simp

section \<open>The first put, and refusal of a texture array\<close>

text \<open>
  C7, as the code has it. On an idle accumulator \<^verbatim>\<open>put\<close> always records the supplied
  state, and it never refuses on account of the state; it still asks the admission method
  and the texture step, so it returns true exactly when the object is admissible.
\<close>

theorem put_on_idle:
  assumes "idle g"
  shows "gen_state (snd (put g x st)) = Some st \<and> fst (put g x st) = admissible g x"
proof -
  have "gen_state g = None" using idle_fields [OF assms] by simp
  then have "gen_state (snd (put g x st)) = Some st"
    using put_gen_state(1) [of g x st "fst (put g x st)" "snd (put g x st)"] by simp
  with put_idle_admissible [OF assms] show ?thesis by simp
qed

theorem put_on_idle_witness:
  "idle spriteGenerator \<and>
   gen_state (snd (put spriteGenerator (sprite ''a'' 1) state2d)) = Some state2d \<and>
   fst (put spriteGenerator (sprite ''a'' 1) state2d)
     = admissible spriteGenerator (sprite ''a'' 1)"
proof -
  have i: "idle spriteGenerator"
    by (simp add: idle_def cleared_def spriteGenerator_def newBatchGenerator_def)
  from put_on_idle [OF i, of "sprite ''a'' 1" state2d] i show ?thesis
    by simp
qed

text \<open>
  C7 as stated fails: with two textures per object and a single texture unit (the limit
  that \<^verbatim>\<open>contextChange\<close> sets under \<^verbatim>\<open>WEBGL_LEGACY\<close>), the stock generator, freshly
  constructed, refuses an object with two distinct textures on its first \<^verbatim>\<open>put\<close>.
\<close>

theorem first_put_can_refuse:
  "gen_state legacyPairGenerator = None \<and> gen_batchBuffer legacyPairGenerator = [] \<and>
   \<not> fst (put legacyPairGenerator (multiSprite ''a'' [1, 2]) state2d)"
  by code_simp

lemma deltaBufferLength_filter:
  "deltaBufferLength g ts
     = length (filter (\<lambda>t. gen_textureBuffer g (uidOf (baseOf t)) = None) ts)"
  by (induction ts) simp_all

lemma netNew_le_deltaBufferLength:
  "card ((\<lambda>t. uidOf (baseOf t)) ` set ts - dom (gen_textureBuffer g)) \<le> deltaBufferLength g ts"
proof -
  let ?new = "filter (\<lambda>t. gen_textureBuffer g (uidOf (baseOf t)) = None) ts"
  have "(\<lambda>t. uidOf (baseOf t)) ` set ts - dom (gen_textureBuffer g)
          = (\<lambda>t. uidOf (baseOf t)) ` set ?new"
    by (auto simp: dom_def)
  then have "card ((\<lambda>t. uidOf (baseOf t)) ` set ts - dom (gen_textureBuffer g))
               \<le> card (set ?new)"
    by (simp add: card_image_le)
  also have "\<dots> \<le> length ?new" by (rule card_length)
  finally show ?thesis by (simp add: deltaBufferLength_filter)
qed

text \<open>
  C8. For a generator whose texture routine is the one for texture arrays with reduction,
  and which handles textures: when the textures of the object that are not yet in the
  batch, counted without repeats, and the batch's current texture count together exceed
  the limit, \<^verbatim>\<open>put\<close> returns false and leaves the member list, the texture set, the
  texture-to-unit map, the ordered texture list and the texture count as they were.
\<close>

theorem put_texture_array_all_or_nothing:
  assumes "putTexture g = PutTextureArray" and "0 < textureIncrement g"
    and "card ((\<lambda>t. uidOf (baseOf t)) ` set (elems (textureProperty g x))
               - dom (gen_textureBuffer g))
           + textureBufferLength g > textureLimit g"
  shows "\<not> fst (put g x st) \<and>
         gen_batchBuffer (snd (put g x st)) = gen_batchBuffer g \<and>
         gen_textureBuffer (snd (put g x st)) = gen_textureBuffer g \<and>
         textureIndexMap (snd (put g x st)) = textureIndexMap g \<and>
         textureIndexedBuffer (snd (put g x st)) = textureIndexedBuffer g \<and>
         textureBufferLength (snd (put g x st)) = textureBufferLength g"
proof -
  have "deltaBufferLength g' (elems (textureProperty g x)) + textureBufferLength g
          > textureLimit g"
    if "gen_textureBuffer g' = gen_textureBuffer g" for g' :: "'a BatchGenerator"
    using netNew_le_deltaBufferLength [of "elems (textureProperty g x)" g'] assms(3) that
    by simp
  from this [of g] this [of "g\<lparr>gen_state := Some st\<rparr>"] assms(1,2) show ?thesis
    by (auto simp: put_def putAdmit_def callPutTexture_def putTextureArray_def
        split: option.splits)
qed

theorem put_texture_array_all_or_nothing_witness:
  "putTexture pairGenerator = PutTextureArray \<and> 0 < textureIncrement pairGenerator \<and>
   textureBufferLength pairGenerator = 2 \<and> textureLimit pairGenerator = 3 \<and>
   \<not> fst (put pairGenerator (multiSprite ''b'' [2, 3, 4]) state2d) \<and>
   gen_batchBuffer (snd (put pairGenerator (multiSprite ''b'' [2, 3, 4]) state2d))
     = gen_batchBuffer pairGenerator \<and>
   textureIndexedBuffer (snd (put pairGenerator (multiSprite ''b'' [2, 3, 4]) state2d))
     = textureIndexedBuffer pairGenerator \<and>
   textureBufferLength (snd (put pairGenerator (multiSprite ''b'' [2, 3, 4]) state2d))
     = textureBufferLength pairGenerator"
proof -
  have r: "putTexture pairGenerator = PutTextureArray" by code_simp
  have i: "0 < textureIncrement pairGenerator" by code_simp
  have len: "textureBufferLength pairGenerator = 2" by code_simp
  have lim: "textureLimit pairGenerator = 3" by code_simp
  have tex: "elems (textureProperty pairGenerator (multiSprite ''b'' [2, 3, 4]))
               = [Texture 2, Texture 3, Texture 4]"
    by code_simp
  have d: "dom (gen_textureBuffer pairGenerator) = {Some 1, Some 2}"
    by (auto simp: pairGenerator_def newBatchGenerator_def put_def putAdmit_def
        callPutTexture_def putTextureArray_def registerTexture_def multiSprite_def
        split: if_splits)
  have "(\<lambda>t. uidOf (baseOf t)) ` set [Texture 2, Texture 3, Texture 4]
          - {Some 1, Some (2::nat)} = {Some 3, Some 4}"
    by auto
  then have c: "card ((\<lambda>t. uidOf (baseOf t))
                  ` set (elems (textureProperty pairGenerator (multiSprite ''b'' [2, 3, 4])))
                - dom (gen_textureBuffer pairGenerator))
              + textureBufferLength pairGenerator > textureLimit pairGenerator"
    by (simp add: tex d len lim)
  from put_texture_array_all_or_nothing [OF r i c, of state2d] r i len lim show ?thesis
    by simp
qed

section \<open>Texture reduction in the renderer\<close>

lemma reductionInv_accept:
  assumes "reductionInv r batchStart i"
    and "put (batchGenerator r) x st = (True, g)"
  shows "reductionInv (r\<lparr>batchGenerator := g\<rparr>) batchStart (i + 1)"
  using assms put_frame [OF assms(2)] by (simp add: reductionInv_def batches_def)

lemma reductionInv_finalize:
  assumes "reductionInv r batchStart i"
  shows "reductionInv (finalizeNewBatch r batchStart') i' i''"
proof -
  from assms have c: "batchCount r \<le> length (batchPool r)" by (simp add: reductionInv_def)
  from finalizeNewBatch_batches [OF c, of batchStart'] assms show ?thesis
    by (auto simp: reductionInv_def finalizeNewBatch_fields cleared_def)
qed

lemma reductionInv_refuse:
  assumes "reductionInv r batchStart i"
    and "put (batchGenerator r) x st = (False, g)"
  shows "reductionInv (finalizeNewBatch (r\<lparr>batchGenerator := g\<rparr>) batchStart) i i"
proof -
  have "reductionInv (r\<lparr>batchGenerator := g\<rparr>) batchStart i"
    using assms put_frame [OF assms(2)] by (simp add: reductionInv_def batches_def)
  then show ?thesis by (rule reductionInv_finalize)
qed

lemma flush_reduction:
  assumes "flush fuel r = Some r'" and "enableTextureReduction (batchGenerator r)"
  shows "enableTextureReduction (batchGenerator r') \<and> (\<forall>b \<in> set (batches r'). uidMap b \<noteq> None)"
proof -
  from assms(1) obtain r1 batchStart where
    l: "flushLoop fuel (r\<lparr>batchCount := 0\<rparr>) 0 0 = Some (r1, batchStart)" and
    r': "r' = (if gen_batchBuffer (batchGenerator r1) \<noteq> []
               then finalizeNewBatch r1 batchStart else r1)"
    by (auto simp: flush_def split: option.splits)
  have init: "reductionInv (r\<lparr>batchCount := 0\<rparr>) 0 0"
    using assms(2) by (simp add: reductionInv_def batches_def)
  have "\<exists>i'. reductionInv r1 batchStart i' \<and> length (objectBuffer r1) \<le> i'"
    by (rule flushLoop_rule [OF l, where P = reductionInv])
      (rule init, erule reductionInv_accept, assumption, erule reductionInv_refuse, assumption)
  then obtain i' where inv: "reductionInv r1 batchStart i'" by blast
  then have "reductionInv r' batchStart i'"
    using r' reductionInv_finalize by (cases "gen_batchBuffer (batchGenerator r1) = []") auto
  then show ?thesis by (simp add: reductionInv_def)
qed

lemma operating_reduction: "operating r \<Longrightarrow> enableTextureReduction (batchGenerator r)"
proof (induction rule: operating.induct)
  case (initialised gl r r')
  then show ?case by (auto simp: contextChange_def Let_def split: if_splits)
next
  case (rendered r displayObject)
  then show ?case by (simp add: render_def)
next
  case (flushed r fuel r')
  then show ?case using flush_reduction by blast
qed

text \<open>
  C10. \<^verbatim>\<open>contextChange\<close> constructs the generator with the texture-reduction argument
  \<open>True\<close>; it throws exactly when the constructed generator reports texture reduction
  disabled, and otherwise installs that generator. A renderer in operation therefore has
  texture reduction enabled, and every batch that a flush of it produces has a uid map
  that is not null.
\<close>

theorem renderer_never_without_texture_reduction:
  "((\<exists>e. contextChange gl r = Inl e) \<longleftrightarrow>
      \<not> enableTextureReduction
          (BatchGeneratorClass r (texturePerObject r)
             (if preferLegacy gl then 1
              else min (maxTextureImageUnits gl) (spriteMaxTextures gl))
             (rendererTextureProperty r) True)) \<and>
   (\<forall>r1. contextChange gl r = Inr r1 \<longrightarrow>
      batchGenerator r1 =
        BatchGeneratorClass r (texturePerObject r)
          (if preferLegacy gl then 1
           else min (maxTextureImageUnits gl) (spriteMaxTextures gl))
          (rendererTextureProperty r) True) \<and>
   (operating r2 \<longrightarrow>
      enableTextureReduction (batchGenerator r2) \<and>
      (\<forall>fuel r3. flush fuel r2 = Some r3 \<longrightarrow> (\<forall>b \<in> set (batches r3). uidMap b \<noteq> None)))"
proof (intro conjI allI impI)
  show "(\<exists>e. contextChange gl r = Inl e) \<longleftrightarrow>
      \<not> enableTextureReduction
          (BatchGeneratorClass r (texturePerObject r)
             (if preferLegacy gl then 1
              else min (maxTextureImageUnits gl) (spriteMaxTextures gl))
             (rendererTextureProperty r) True)"
    by (simp add: contextChange_def Let_def)
next
  fix r1 assume "contextChange gl r = Inr r1"
  then show "batchGenerator r1 =
        BatchGeneratorClass r (texturePerObject r)
          (if preferLegacy gl then 1
           else min (maxTextureImageUnits gl) (spriteMaxTextures gl))
          (rendererTextureProperty r) True"
    by (auto simp: contextChange_def Let_def split: if_splits)
next
  assume "operating r2"
  then show "enableTextureReduction (batchGenerator r2)" by (rule operating_reduction)
next
  fix fuel r3
  assume "operating r2" "flush fuel r2 = Some r3"
  with flush_reduction [OF _ operating_reduction]
  show "\<forall>b \<in> set (batches r3). uidMap b \<noteq> None" by blast
qed

theorem renderer_never_without_texture_reduction_witness:
  "\<not> isl (contextChange glDefault greedyExample) \<and>
   operating (render (projr (contextChange glDefault greedyExample)) (sprite ''e'' 4)) \<and>
   flush 11 (render (projr (contextChange glDefault greedyExample)) (sprite ''e'' 4)) \<noteq> None \<and>
   list_all (\<lambda>b. uidMap b \<noteq> None)
     (batches (the (flush 11
        (render (projr (contextChange glDefault greedyExample)) (sprite ''e'' 4)))))"
proof -
  let ?r = "projr (contextChange glDefault greedyExample)"
  have c: "contextChange glDefault greedyExample = Inr ?r"
    by (simp add: contextChange_def Let_def greedyExample_def spriteRenderer_def
        newBatchGenerator_def)
  then have o: "operating (render ?r (sprite ''e'' 4))"
    by (intro operating.rendered operating.initialised)
  have n: "flush 11 (render ?r (sprite ''e'' 4)) \<noteq> None"
    by code_simp
  then have f: "flush 11 (render ?r (sprite ''e'' 4))
                  = Some (the (flush 11 (render ?r (sprite ''e'' 4))))"
    by simp
  have i: "\<not> isl (contextChange glDefault greedyExample)"
    using c by (metis sum.disc(2))
  from renderer_never_without_texture_reduction
         [of glDefault greedyExample "render ?r (sprite ''e'' 4)"] o f i n
  show ?thesis unfolding list_all_iff by blast
qed

section \<open>The texture limit without texture reduction\<close>

text \<open>
  C2 fails when texture reduction is disabled: \<^verbatim>\<open>_putTextureWithoutReduction\<close> tests
  \<^verbatim>\<open>_textureBufferLength + 1\<close> against the limit and never increases
  \<^verbatim>\<open>_textureBufferLength\<close>. With a limit of one texture the generator accepts two objects
  with different textures into one batch.
\<close>

theorem plain_generator_exceeds_texture_limit:
  "(let (ok1, g1) = put plainGenerator (sprite ''a'' 1) state2d;
        (ok2, g2) = put g1 (sprite ''b'' 2) state2d;
        (batch, g3) = finalize g2 (newBatchObject 0)
    in ok1 \<and> ok2 \<and> textureLimit g2 = 1 \<and> textureBufferLength g2 = 0 \<and>
       batchBuffer batch = [sprite ''a'' 1, sprite ''b'' 2] \<and>
       textureBuffer batch = Some [BaseTexture 1, BaseTexture 2] \<and>
       card (set (map (\<lambda>x. uidOf (baseOf (texture x))) (batchBuffer batch))) = 2)"
  by code_simp

section \<open>The buffer pool\<close>

lemma log2_pow2 [simp]: "log2 (2 ^ k) = k"
proof (induction k)
  case 0
  show ?case by (simp add: log2.simps)
next
  case (Suc k)
  have "(0::nat) < 2 ^ k" by simp
  then have "\<not> (2::nat) ^ Suc k < 2" unfolding power_Suc by arith
  then show ?case using Suc by (subst log2.simps) simp
qed

lemma log2_bounds: "0 < n \<Longrightarrow> 2 ^ log2 n \<le> n \<and> n < 2 ^ Suc (log2 n)"
proof (induction n rule: log2.induct)
  case (1 n)
  show ?case
  proof (cases "n < 2")
    case True
    with 1 show ?thesis by (simp add: log2.simps)
  next
    case False
    then have "0 < n div 2" by simp
    with 1 False have "2 ^ log2 (n div 2) \<le> n div 2 \<and> n div 2 < 2 ^ Suc (log2 (n div 2))" by simp
    then show ?thesis using False by (subst (1 2) log2.simps) (simp; arith)
  qed
qed

lemma nextPow2_ge: "n \<le> nextPow2 n"
  using log2_bounds [of "n - 1"] by (auto simp: nextPow2_def)

lemma nextPow2_pow2: "nextPow2 n = 2 ^ log2 (nextPow2 n)"
proof (cases "n \<le> 1")
  case True
  then show ?thesis by (simp add: nextPow2_def log2.simps)
next
  case False
  then have "nextPow2 n = 2 ^ Suc (log2 (n - 1))" by (simp add: nextPow2_def)
  then show ?thesis by (simp only: log2_pow2)
qed

lemma log2_pred_pow2: "log2 (2 ^ Suc j - 1) = j"
proof -
  let ?l = "log2 (2 ^ Suc j - 1)"
  have "(0::nat) < 2 ^ j" by simp
  then have pos: "(0::nat) < 2 ^ Suc j - 1" unfolding power_Suc by arith
  from log2_bounds [OF pos]
  have b: "2 ^ ?l \<le> (2::nat) ^ Suc j - 1" "(2::nat) ^ Suc j - 1 < 2 ^ Suc ?l"
    by simp_all
  from b(1) pos have "(2::nat) ^ ?l < 2 ^ Suc j" by linarith
  then have 1: "?l < Suc j" by (simp only: power_strict_increasing_iff [of 2])
  from b(2) have "(2::nat) ^ Suc j \<le> 2 ^ Suc ?l" by linarith
  then have 2: "Suc j \<le> Suc ?l" by (simp only: power_increasing_iff [of 2])
  from 1 2 show ?thesis by simp
qed

lemma nextPow2_of_pow2: "nextPow2 (2 ^ k) = 2 ^ k"
proof (cases k)
  case 0
  then show ?thesis by (simp add: nextPow2_def)
next
  case (Suc j)
  have "(0::nat) < 2 ^ j" by simp
  then have "\<not> (2::nat) ^ Suc j \<le> 1" unfolding power_Suc by arith
  then show ?thesis
    using Suc log2_pred_pow2 [of j] by (simp only: nextPow2_def if_False)
qed

lemma getAt_beyond: "length xs \<le> i \<Longrightarrow> getAt xs i = None"
  by (simp add: getAt_def)

lemma getAt_setLength: "getAt (setLength xs n) i = (if i < n then getAt xs i else None)"
  by (auto simp: getAt_def setLength_def nth_append)

lemma getAt_setAt: "getAt (setAt xs i v) j = (if j = i then Some v else getAt xs j)"
  by (auto simp: getAt_def setAt_def setLength_def nth_append nth_list_update max_def)

lemma sizeClassed_new: "sizeClassed (newBufferPool v)"
  by (simp add: sizeClassed_def newBufferPool_def getAt_def)

lemma releaseBuffer_getAt:
  "getAt (bufferPools (releaseBuffer p b)) i =
     (if i = log2 (nextPow2 (length b))
      then Some ((case getAt (bufferPools p) i of None \<Rightarrow> [] | Some q \<Rightarrow> q) @ [b])
      else getAt (bufferPools p) i)"
  by (auto simp: releaseBuffer_def Let_def getAt_setAt split: option.splits)

lemma allocateBuffer_result:
  "fst (allocateBuffer p n) =
     (case getAt (bufferPools p) (log2 (nextPow2 n)) of
        None \<Rightarrow> replicate (nextPow2 n) (initial p)
      | Some q \<Rightarrow> if q = [] then replicate (nextPow2 n) (initial p) else last q)"
  by (auto simp: allocateBuffer_def Let_def getAt_setAt getAt_setLength split: option.splits)

lemma allocateBuffer_getAt:
  "getAt (bufferPools (snd (allocateBuffer p n))) i =
     (if i = log2 (nextPow2 n)
      then Some (case getAt (bufferPools p) i of None \<Rightarrow> [] | Some q \<Rightarrow> butlast q)
      else getAt (bufferPools p) i)"
  by (auto simp: allocateBuffer_def Let_def getAt_setAt getAt_setLength getAt_beyond
      split: option.splits)

text \<open>
  C9, as the code has it. In a size-classed pool \<^verbatim>\<open>allocateBuffer(minSize)\<close> returns a
  buffer whose capacity is \<open>nextPow2 minSize\<close>, which is at least \<open>minSize\<close>, and leaves the
  pool size-classed. When the free list of that size class holds a buffer, the buffer
  returned is the one released last, it is taken off the list, and none is constructed.
  Releasing a buffer whose length is a power of two keeps the pool size-classed.
\<close>

theorem allocateBuffer_size_class:
  assumes "sizeClassed p"
  shows "length (fst (allocateBuffer p minSize)) = nextPow2 minSize \<and>
         minSize \<le> length (fst (allocateBuffer p minSize)) \<and>
         sizeClassed (snd (allocateBuffer p minSize)) \<and>
         (\<forall>q. getAt (bufferPools p) (log2 (nextPow2 minSize)) = Some q \<longrightarrow> q \<noteq> [] \<longrightarrow>
            fst (allocateBuffer p minSize) = last q \<and>
            getAt (bufferPools (snd (allocateBuffer p minSize))) (log2 (nextPow2 minSize))
              = Some (butlast q)) \<and>
         (\<forall>k b. length b = 2 ^ k \<longrightarrow> sizeClassed (releaseBuffer p b))"
proof (intro conjI allI impI)
  show len: "length (fst (allocateBuffer p minSize)) = nextPow2 minSize"
  proof (cases "getAt (bufferPools p) (log2 (nextPow2 minSize))")
    case None
    then show ?thesis by (simp add: allocateBuffer_result)
  next
    case (Some q)
    show ?thesis
    proof (cases "q = []")
      case True
      with Some show ?thesis by (simp add: allocateBuffer_result)
    next
      case False
      then have "last q \<in> set q" by simp
      with assms Some have "length (last q) = 2 ^ log2 (nextPow2 minSize)"
        unfolding sizeClassed_def by blast
      with Some False show ?thesis
        using nextPow2_pow2 [of minSize] by (simp add: allocateBuffer_result)
    qed
  qed
  show "minSize \<le> length (fst (allocateBuffer p minSize))"
    using len nextPow2_ge [of minSize] by simp
  show "sizeClassed (snd (allocateBuffer p minSize))"
    unfolding sizeClassed_def
  proof (intro allI impI ballI)
    fix i q b
    assume g: "getAt (bufferPools (snd (allocateBuffer p minSize))) i = Some q"
      and b: "b \<in> set q"
    show "length b = 2 ^ i"
    proof (cases "i = log2 (nextPow2 minSize)")
      case False
      with g have "getAt (bufferPools p) i = Some q" by (simp add: allocateBuffer_getAt)
      with assms b show ?thesis unfolding sizeClassed_def by blast
    next
      case True
      with g b obtain q' where "getAt (bufferPools p) i = Some q'" "b \<in> set (butlast q')"
        by (cases "getAt (bufferPools p) i") (auto simp: allocateBuffer_getAt)
      then have "getAt (bufferPools p) i = Some q'" "b \<in> set q'"
        by (auto dest: in_set_butlastD)
      with assms show ?thesis unfolding sizeClassed_def by blast
    qed
  qed
next
  fix q assume "getAt (bufferPools p) (log2 (nextPow2 minSize)) = Some q" "q \<noteq> []"
  then show "fst (allocateBuffer p minSize) = last q"
    and "getAt (bufferPools (snd (allocateBuffer p minSize))) (log2 (nextPow2 minSize))
              = Some (butlast q)"
    by (simp_all add: allocateBuffer_result allocateBuffer_getAt)
next
  fix k and b :: "'a list" assume "length b = 2 ^ k"
  then have "log2 (nextPow2 (length b)) = k" by (simp add: nextPow2_of_pow2)
  show "sizeClassed (releaseBuffer p b)"
    unfolding sizeClassed_def
  proof (intro allI impI ballI)
    fix i q c
    assume g: "getAt (bufferPools (releaseBuffer p b)) i = Some q" and c: "c \<in> set q"
    show "length c = 2 ^ i"
    proof (cases "i = k")
      case False
      with g \<open>log2 (nextPow2 (length b)) = k\<close> have "getAt (bufferPools p) i = Some q"
        by (simp add: releaseBuffer_getAt)
      with assms c show ?thesis unfolding sizeClassed_def by blast
    next
      case True
      show ?thesis
      proof (cases "c = b")
        case True
        with \<open>i = k\<close> \<open>length b = 2 ^ k\<close> show ?thesis by simp
      next
        case False
        with g c True \<open>log2 (nextPow2 (length b)) = k\<close>
        obtain q' where "getAt (bufferPools p) i = Some q'" "c \<in> set q'"
          by (cases "getAt (bufferPools p) i") (auto simp: releaseBuffer_getAt)
        with assms show ?thesis unfolding sizeClassed_def by blast
      qed
    qed
  qed
qed

theorem allocateBuffer_size_class_witness:
  "sizeClassed (releaseBuffer (newBufferPool 0) (replicate 64 (7::nat))) \<and>
   fst (allocateBuffer (releaseBuffer (newBufferPool 0) (replicate 64 (7::nat))) 50)
     = replicate 64 7 \<and>
   50 \<le> length (fst (allocateBuffer (releaseBuffer (newBufferPool 0) (replicate 64 (7::nat))) 50))"
proof -
  let ?p = "releaseBuffer (newBufferPool 0) (replicate 64 (7::nat))"
  have "length (replicate 64 (7::nat)) = 2 ^ 6" by simp
  with allocateBuffer_size_class [OF sizeClassed_new, of 0 0] have s: "sizeClassed ?p"
    by blast
  have g: "getAt (bufferPools ?p) (log2 (nextPow2 50)) = Some [replicate 64 7]"
    by code_simp
  from allocateBuffer_size_class [OF s, of 50] g s show ?thesis
    by simp
qed

text \<open>
  C9 as stated fails: \<^verbatim>\<open>releaseBuffer\<close> files a buffer under the power of two above its
  length, so a released buffer of capacity 50 lies in the class of 64, and a request for
  60 elements gets it.
\<close>

theorem allocateBuffer_below_request:
  "fst (allocateBuffer (releaseBuffer (newBufferPool 0) (replicate 50 (7::nat))) 60)
     = replicate 50 7 \<and>
   length (fst (allocateBuffer (releaseBuffer (newBufferPool 0) (replicate 50 (7::nat))) 60))
     < 60"
  by code_simp

section \<open>Packing\<close>

lemma texturedBody_step:
  "aIndexVar (execBody buffers tid texturedBody s) = aIndexVar s + 12"
  by (simp add: texturedBody_def field_simps)

lemma texturedBody_loop:
  "aIndexVar (vertexLoop buffers tid texturedBody n s) = aIndexVar s + 12 * of_nat n"
proof (induction n arbitrary: s)
  case 0
  show ?case by simp
next
  case (Suc n)
  show ?case
    unfolding vertexLoop.simps Suc.IH texturedBody_step by (simp add: field_simps)
qed

lemma compile_textured:
  assumes "texturedLayout p"
  shows "compile p =
     Inr \<lparr> sources = [\<lambda>m. Elements (vertices m)], vertexCountOf = LengthOverSize 2,
           loopBody = texturedBody, indexArrayOf = Some indices, vertexSizeConstant = 12 \<rparr>"
  using assms
  by (simp add: texturedLayout_def compile_def compileVertexCountExpression_def compileBody_def
      compileTextures_def aVertex_def texturedBody_def numeral_2_eq_2)

lemma pack_textured:
  assumes "texturedLayout p"
    and "targetCompositeAttributeBuffer p \<noteq> None"
    and "targetCompositeIndexBuffer p = Some ib"
  shows "\<exists>p'. pack p m tid = Done p' \<and> texturedLayout p' \<and>
           targetCompositeAttributeBuffer p' \<noteq> None \<and>
           aIndex p' = aIndex p + 12 * of_nat (nat \<lceil>(of_nat (length (vertices m)) :: rat) / 2\<rceil>) \<and>
           targetCompositeIndexBuffer p'
             = Some (fst (writeIndices ib (iIndex p) (aIndex p) 12 (indices m))) \<and>
           iIndex p' = snd (writeIndices ib (iIndex p) (aIndex p) 12 (indices m))"
  using assms
  by (auto simp: pack_def compile_textured callPackerFunction_def Let_def vertexIterations_def
      texturedBody_loop texturedLayout_def split: prod.splits)

lemma getAttributeBuffer_frame:
  "targetCompositeIndexBuffer (snd (getAttributeBuffer p n)) = targetCompositeIndexBuffer p \<and>
   aIndex (snd (getAttributeBuffer p n)) = aIndex p \<and>
   iIndex (snd (getAttributeBuffer p n)) = iIndex p \<and>
   attributeRedirects (snd (getAttributeBuffer p n)) = attributeRedirects p \<and>
   indexProperty (snd (getAttributeBuffer p n)) = indexProperty p \<and>
   vertexCountProperty (snd (getAttributeBuffer p n)) = vertexCountProperty p \<and>
   vertexSize (snd (getAttributeBuffer p n)) = vertexSize p \<and>
   packerTexturePerObject (snd (getAttributeBuffer p n)) = packerTexturePerObject p \<and>
   iBuffers (snd (getAttributeBuffer p n)) = iBuffers p"
  by (simp add: getAttributeBuffer_def Let_def split: option.splits)

lemma getIndexBuffer_frame:
  "targetCompositeAttributeBuffer (snd (getIndexBuffer p n)) = targetCompositeAttributeBuffer p \<and>
   aIndex (snd (getIndexBuffer p n)) = aIndex p \<and>
   iIndex (snd (getIndexBuffer p n)) = iIndex p \<and>
   attributeRedirects (snd (getIndexBuffer p n)) = attributeRedirects p \<and>
   indexProperty (snd (getIndexBuffer p n)) = indexProperty p \<and>
   vertexCountProperty (snd (getIndexBuffer p n)) = vertexCountProperty p \<and>
   vertexSize (snd (getIndexBuffer p n)) = vertexSize p \<and>
   packerTexturePerObject (snd (getIndexBuffer p n)) = packerTexturePerObject p"
  by (simp add: getIndexBuffer_def Let_def split: option.splits)

lemma getIndexBuffer_first:
  assumes "iBuffers p = []"
  shows "fst (getIndexBuffer p 9) = replicate 12 0"
proof -
  have n: "nextPow2 (Suc 0) = Suc 0" "log2 (Suc 0) = 0"
    by (simp_all add: nextPow2_def log2.simps)
  show ?thesis
    using assms by (simp add: getIndexBuffer_def Let_def n getAt_def setLength_def)
qed

lemma resetPacker_fields:
  "attributeRedirects (resetPacker p v i) = attributeRedirects p"
  "indexProperty (resetPacker p v i) = indexProperty p"
  "vertexCountProperty (resetPacker p v i) = vertexCountProperty p"
  "vertexSize (resetPacker p v i) = vertexSize p"
  "packerTexturePerObject (resetPacker p v i) = packerTexturePerObject p"
  "aIndex (resetPacker p v i) = 0"
  "iIndex (resetPacker p v i) = 0"
  "targetCompositeAttributeBuffer (resetPacker p v i) = Some (fst (getAttributeBuffer p v))"
  "indexProperty p \<noteq> None \<Longrightarrow> targetCompositeIndexBuffer (resetPacker p v i)
     = Some (fst (getIndexBuffer
         ((snd (getAttributeBuffer p v))
            \<lparr>targetCompositeAttributeBuffer := Some (fst (getAttributeBuffer p v))\<rparr>) i))"
  using getAttributeBuffer_frame [of p v]
    getIndexBuffer_frame [of "(snd (getAttributeBuffer p v))
            \<lparr>targetCompositeAttributeBuffer := Some (fst (getAttributeBuffer p v))\<rparr>" i]
  by (simp_all add: resetPacker_def Let_def case_prod_beta)

lemma resetPacker_textured:
  "texturedLayout (resetPacker texturedPacker 7 9)"
  "targetCompositeAttributeBuffer (resetPacker texturedPacker 7 9) \<noteq> None"
  "targetCompositeIndexBuffer (resetPacker texturedPacker 7 9) = Some (replicate 12 0)"
  "aIndex (resetPacker texturedPacker 7 9) = 0"
  "iIndex (resetPacker texturedPacker 7 9) = 0"
proof -
  have v: "vertexSizeFor [aVertex] = 8"
    by (simp add: vertexSizeFor_def aVertex_def properSize_def)
  have t: "texturedLayout texturedPacker"
    by (simp add: texturedLayout_def texturedPacker_def newGeometryPacker_def v)
  then show "texturedLayout (resetPacker texturedPacker 7 9)"
    by (simp add: texturedLayout_def resetPacker_fields)
  show "targetCompositeAttributeBuffer (resetPacker texturedPacker 7 9) \<noteq> None"
    by (simp add: resetPacker_fields)
  have "iBuffers texturedPacker = []"
    by (simp add: texturedPacker_def newGeometryPacker_def)
  then have "iBuffers ((snd (getAttributeBuffer texturedPacker 7))
      \<lparr>targetCompositeAttributeBuffer := Some (fst (getAttributeBuffer texturedPacker 7))\<rparr>) = []"
    using getAttributeBuffer_frame [of texturedPacker 7] by simp
  from getIndexBuffer_first [OF this] t
  show "targetCompositeIndexBuffer (resetPacker texturedPacker 7 9) = Some (replicate 12 0)"
    by (simp add: resetPacker_fields texturedLayout_def)
  show "aIndex (resetPacker texturedPacker 7 9) = 0" "iIndex (resetPacker texturedPacker 7 9) = 0"
    by (simp_all add: resetPacker_fields)
qed

text \<open>
  C5, as the code has it. With the layout of one float32 attribute of two elements and one
  texture id per vertex, for an object A with three vertices and the indices 0, 1, 2
  followed by an object B with four vertices and the indices 0, 1, 2, 3, 0, 2, whatever
  their coordinates and texture ids: the composite index buffer holds, up to the index
  cursor, 0, 1, 2, 3, 4, 5, 6, 3, 5. Each index of B is offset by 3, the number of
  vertices written before B.
\<close>

theorem index_rebasing:
  assumes "length (vertices a) = 6" and "indices a = [0, 1, 2]"
    and "length (vertices b) = 8" and "indices b = [0, 1, 2, 3, 0, 2]"
  shows "packedIndices (packAll (resetPacker texturedPacker 7 9) [(a, ta), (b, tb)])
           = Some [0, 1, 2, 3, 4, 5, 6, 3, 5]"
proof -
  let ?p0 = "resetPacker texturedPacker 7 9"
  have w1: "writeIndices (replicate 12 0) 0 0 12 [0, 1, 2]
              = ([0, 1, 2, 0, 0, 0, 0, 0, 0, 0, 0, 0], 3)"
    by code_simp
  have w2: "writeIndices [0, 1, 2, 0, 0, 0, 0, 0, 0, 0, 0, 0] 3 36 12 [0, 1, 2, 3, 0, 2]
              = ([0, 1, 2, 3, 4, 5, 6, 3, 5, 0, 0, 0], 9)"
    by code_simp
  have c1: "nat \<lceil>(of_nat (length (vertices a)) :: rat) / 2\<rceil> = 3"
    using assms(1) by simp
  from pack_textured [OF resetPacker_textured(1,2,3), of a ta]
  obtain p1 where raw1: "pack ?p0 a ta = Done p1" "texturedLayout p1"
    "targetCompositeAttributeBuffer p1 \<noteq> None"
    "aIndex p1 = aIndex ?p0 + 12 * of_nat (nat \<lceil>(of_nat (length (vertices a)) :: rat) / 2\<rceil>)"
    "targetCompositeIndexBuffer p1
       = Some (fst (writeIndices (replicate 12 0) (iIndex ?p0) (aIndex ?p0) 12 (indices a)))"
    "iIndex p1 = snd (writeIndices (replicate 12 0) (iIndex ?p0) (aIndex ?p0) 12 (indices a))"
    by blast
  have a1: "aIndex p1 = 36"
    unfolding raw1(4) c1 resetPacker_textured(4) by simp
  have b1: "targetCompositeIndexBuffer p1 = Some [0, 1, 2, 0, 0, 0, 0, 0, 0, 0, 0, 0]"
    unfolding raw1(5) resetPacker_textured(4,5) assms(2) w1 by (simp only: fst_conv)
  have i1: "iIndex p1 = 3"
    unfolding raw1(6) resetPacker_textured(4,5) assms(2) w1 by (simp only: snd_conv)
  from pack_textured [OF raw1(2,3) b1, of b tb]
  obtain p2 where raw2: "pack p1 b tb = Done p2"
    "targetCompositeIndexBuffer p2
       = Some (fst (writeIndices [0, 1, 2, 0, 0, 0, 0, 0, 0, 0, 0, 0] (iIndex p1) (aIndex p1) 12
                 (indices b)))"
    "iIndex p2 = snd (writeIndices [0, 1, 2, 0, 0, 0, 0, 0, 0, 0, 0, 0] (iIndex p1) (aIndex p1) 12
                 (indices b))"
    by blast
  have b2: "targetCompositeIndexBuffer p2 = Some [0, 1, 2, 3, 4, 5, 6, 3, 5, 0, 0, 0]"
    unfolding raw2(2) a1 i1 assms(4) w2 by (simp only: fst_conv)
  have i2: "iIndex p2 = 9"
    unfolding raw2(3) a1 i1 assms(4) w2 by (simp only: snd_conv)
  show ?thesis
    by (simp add: raw1(1) raw2(1) b2 i2 packedIndices_def)
qed

theorem index_rebasing_witness:
  "packedIndices
     (packAll (resetPacker texturedPacker 7 9)
        [(triangleA, TextureId (Num 0)), (quadB, TextureId (Num 1))])
     = Some [0, 1, 2, 3, 4, 5, 6, 3, 5]"
  using index_rebasing [of triangleA quadB "TextureId (Num 0)" "TextureId (Num 1)"]
  by (simp add: triangleA_def quadB_def)

text \<open>
  C5 as stated fails: the six indices of B, each offset by 3, are 3, 4, 5, 6, 3, 5, so the
  buffer holds nine indices and not the eight of 0, 1, 2, 3, 4, 5, 3, 5.
\<close>

theorem index_rebasing_not_as_stated:
  "packedIndices
     (packAll (resetPacker texturedPacker 7 9)
        [(triangleA, TextureId (Num 0)), (quadB, TextureId (Num 0))])
     \<noteq> Some [0, 1, 2, 3, 4, 5, 3, 5]"
  by code_simp

text \<open>
  C6 fails on the code. For the layout with one float32 attribute of two elements and no
  texture, the generated loop body sets \<^verbatim>\<open>adjustedAIndex\<close> from \<^verbatim>\<open>aIndex\<close> at every
  vertex and never stores \<^verbatim>\<open>aIndex\<close> back: every vertex is written at the same place.
  Packing the source 1, 2, 3, 4 leaves 3, 4 in the first two cells, zeros after them, and
  the attribute cursor at 0.
\<close>

theorem plain_layout_overwrites_vertices:
  "compileBody plainPacker = [SetAdjusted 4, CopyElement Float32 0, CopyElement Float32 0] \<and>
   packedFloats 4 (pack (resetPacker plainPacker 2 0) twoVertices (TextureIds []))
     = Some [Num 3, Num 4, Num 0, Num 0] \<and>
   packedCursor (pack (resetPacker plainPacker 2 0) twoVertices (TextureIds [])) = Some 0"
  by code_simp

text \<open>
  The cache of attribute buffers: a new buffer is stored at \<^verbatim>\<open>roundedSize\<close> and looked
  up at \<^verbatim>\<open>roundedSizeIndex\<close>. A buffer for 8 vertices (16 floats in this layout) lands at
  position 8, where a later request for 2048 vertices finds it.
\<close>

lemma attribute_buffer_cache_slip:
  "map (\<lambda>b. case b of None \<Rightarrow> False | Some x \<Rightarrow> True)
       (aBuffers (snd (getAttributeBuffer plainPacker 8)))
     = [False, False, False, False, False, False, False, False, True] \<and>
   length (fst (getAttributeBuffer (snd (getAttributeBuffer plainPacker 8)) 2048) Float32) = 16"
  by code_simp

end
